theory Spec2Isabelle
  imports Main
begin

section \<open>Characters and strings\<close>

text \<open>
  A Python \<open>str\<close> is a sequence of Unicode code points. The model holds one code point
  in one \<^typ>\<open>char\<close>, so it covers the code points 0..255 (ASCII and the Latin-1
  supplement); \<open>of_char\<close> reads the code point. The predicates below are Python's
  \<open>str.isspace\<close>, \<open>str.isalpha\<close>, \<open>str.isdigit\<close> and \<open>str.isalnum\<close> on that range.
\<close>

abbreviation NL :: char where "NL \<equiv> CHR 0x0A"
abbreviation CR :: char where "CR \<equiv> CHR 0x0D"
abbreviation TAB :: char where "TAB \<equiv> CHR 0x09"
abbreviation DQUOTE :: char where "DQUOTE \<equiv> CHR 0x22"
abbreviation SQUOTE :: char where "SQUOTE \<equiv> CHR 0x27"

definition between :: "nat \<Rightarrow> nat \<Rightarrow> nat \<Rightarrow> bool" where
  "between lo hi k = (lo \<le> k \<and> k \<le> hi)"

definition isspace :: "char \<Rightarrow> bool" where
  "isspace c = (let k = (of_char c :: nat) in
     between 9 13 k \<or> between 28 32 k \<or> k = 133 \<or> k = 160)"

definition isalpha :: "char \<Rightarrow> bool" where
  "isalpha c = (let k = (of_char c :: nat) in
     between 65 90 k \<or> between 97 122 k \<or> k = 170 \<or> k = 181 \<or> k = 186 \<or>
     between 192 214 k \<or> between 216 246 k \<or> between 248 255 k)"

definition isdigit :: "char \<Rightarrow> bool" where
  "isdigit c = (let k = (of_char c :: nat) in
     between 48 57 k \<or> k = 178 \<or> k = 179 \<or> k = 185)"

definition isalnum :: "char \<Rightarrow> bool" where
  "isalnum c = (let k = (of_char c :: nat) in
     isalpha c \<or> isdigit c \<or> between 188 190 k)"

text \<open>\<open>s[start:stop]\<close> for \<open>0 \<le> start\<close> and \<open>0 \<le> stop\<close>.\<close>

definition slice :: "'a list \<Rightarrow> nat \<Rightarrow> nat \<Rightarrow> 'a list" where
  "slice s start stop = take (stop - start) (drop start s)"

text \<open>\<open>s.split(sep)\<close> for a separator of one character.\<close>

fun split_on :: "char \<Rightarrow> string \<Rightarrow> string list" where
  "split_on sep [] = [[]]"
| "split_on sep (c # cs) =
     (if c = sep then [] # split_on sep cs
      else (case split_on sep cs of
              [] \<Rightarrow> [[c]]
            | l # ls \<Rightarrow> (c # l) # ls))"

text \<open>\<open>s.strip()\<close>: leading and trailing whitespace removed.\<close>

definition strip :: "string \<Rightarrow> string" where
  "strip s = rev (dropWhile isspace (rev (dropWhile isspace s)))"

text \<open>\<open>str(n)\<close> for an integer: decimal digits, with a minus sign when negative.\<close>

definition digit_char :: "nat \<Rightarrow> char" where
  "digit_char d = char_of (48 + d)"

function str_nat :: "nat \<Rightarrow> string" where
  "str_nat n = (if n < 10 then [digit_char n] else str_nat (n div 10) @ [digit_char (n mod 10)])"
  by pat_completeness auto
termination
  by (relation "measure id") auto

declare str_nat.simps [simp del]

definition str_int :: "int \<Rightarrow> string" where
  "str_int z = (if z < 0 then CHR ''-'' # str_nat (nat (- z)) else str_nat (nat z))"

text \<open>
  \<open>int(s)\<close> for a string: \<open>None\<close> is \<open>ValueError\<close>. Whitespace around the number is
  dropped (the ASCII whitespace and, beyond ASCII, the Unicode spaces), one sign is allowed,
  and the digits may be grouped by single underscores. The interpreter's limit on the
  number of digits of a literal is left out.
\<close>

definition int_space :: "char \<Rightarrow> bool" where
  "int_space c = (let k = (of_char c :: nat) in
     between 9 13 k \<or> k = 32 \<or> k = 133 \<or> k = 160)"

definition ascii_digit :: "char \<Rightarrow> bool" where
  "ascii_digit c = between 48 57 (of_char c)"

fun digits_ok :: "string \<Rightarrow> bool" where
  "digits_ok [] = False"
| "digits_ok [c] = ascii_digit c"
| "digits_ok (c # d # cs) =
     (ascii_digit c \<and> (if d = CHR ''_'' then digits_ok cs else digits_ok (d # cs)))"

definition digits_value :: "string \<Rightarrow> nat" where
  "digits_value s =
     foldl (\<lambda>acc c. 10 * acc + (of_char c - 48)) 0 (filter (\<lambda>c. c \<noteq> CHR ''_'') s)"

definition py_int :: "string \<Rightarrow> int option" where
  "py_int s =
     (let t = rev (dropWhile int_space (rev (dropWhile int_space s)));
          neg = (t \<noteq> [] \<and> hd t = CHR ''-'');
          body = (if t \<noteq> [] \<and> (hd t = CHR ''-'' \<or> hd t = CHR ''+'') then tl t else t)
      in if digits_ok body
         then Some (if neg then - int (digits_value body) else int (digits_value body))
         else None)"

section \<open>The symbol table\<close>

text \<open>
  An entry of \<open>SymbolTable.symbols\<close> is a dict with the keys \<open>type\<close>, \<open>value\<close> and
  \<open>line\<close>.
\<close>

record symbol =
  sym_type :: string
  sym_value :: string
  sym_line :: int

text \<open>
  The table is bound to one file, \<open>tabla_simbolos.dat\<close>. The state of a table is its list
  of entries together with the text of that file (\<open>None\<close> while the file does not exist).
  The file is written and read in text mode: what is written is read back as the same
  code points, but for the universal-newline translation of the reader. Failures of the
  file system itself are outside the model.
\<close>

record SymbolTable =
  symbols :: "symbol list"
  file_text :: "string option"

datatype error = ValueError

definition header_create :: string where
  "header_create =
     ''=== TABLA DE SIMBOLOS ==='' @ [NL] @
     ''Formato: Tipo | Valor | Linea'' @ [NL] @
     ''---------------------------'' @ [NL] @
     ''TIPOS POSIBLES:'' @ [NL] @
     ''- PALABRA_RESERVADA'' @ [NL] @
     ''- IDENTIFICADOR'' @ [NL] @
     ''- NUMERO_ENTERO'' @ [NL] @
     ''- NUMERO_DECIMAL'' @ [NL] @
     ''- STRING'' @ [NL] @
     ''- OPERADOR'' @ [NL] @
     ''---------------------------'' @ [NL]"

definition create_file :: "string option \<Rightarrow> string option" where
  "create_file f = (case f of None \<Rightarrow> Some header_create | Some text \<Rightarrow> Some text)"

definition header_save :: string where
  "header_save =
     ''=== TABLA DE SIMBOLOS ==='' @ [NL] @
     ''Formato: Tipo | Valor | Linea'' @ [NL] @
     ''---------------------------'' @ [NL]"

definition row :: "symbol \<Rightarrow> string" where
  "row s = sym_type s @ [TAB] @ sym_value s @ [TAB] @ str_int (sym_line s) @ [NL]"

definition save_text :: "symbol list \<Rightarrow> string" where
  "save_text syms = header_save @ concat (map row syms)"

definition save :: "SymbolTable \<Rightarrow> SymbolTable" where
  "save t = t\<lparr>file_text := Some (save_text (symbols t))\<rparr>"

definition add_symbol :: "string \<Rightarrow> string \<Rightarrow> int \<Rightarrow> SymbolTable \<Rightarrow> SymbolTable" where
  "add_symbol token_type token_value line_number t =
     save (t\<lparr>symbols := symbols t @
       [\<lparr>sym_type = token_type, sym_value = token_value, sym_line = line_number\<rparr>]\<rparr>)"

definition clear :: "SymbolTable \<Rightarrow> SymbolTable" where
  "clear t = save (t\<lparr>symbols := []\<rparr>)"

text \<open>Reading in text mode turns \<open>\r\n\<close> and a lone \<open>\r\<close> into \<open>\n\<close>.\<close>

fun universal_newlines :: "string \<Rightarrow> string" where
  "universal_newlines [] = []"
| "universal_newlines [c] = [if c = CR then NL else c]"
| "universal_newlines (c # d # cs) =
     (if c = CR \<and> d = NL then NL # universal_newlines cs
      else if c = CR then NL # universal_newlines (d # cs)
      else c # universal_newlines (d # cs))"

text \<open>Lines with their line ends kept, as \<open>readlines\<close> returns them.\<close>

fun keepends :: "string \<Rightarrow> string list" where
  "keepends [] = []"
| "keepends (c # cs) =
     (if c = NL then [c] # keepends cs
      else (case keepends cs of
              [] \<Rightarrow> [[c]]
            | l # ls \<Rightarrow> (c # l) # ls))"

definition readlines :: "string \<Rightarrow> string list" where
  "readlines text = keepends (universal_newlines text)"

text \<open>The body of the loop of \<open>load\<close> over \<open>lines[8:]\<close>; \<open>int\<close> may raise.\<close>

fun load_lines :: "string list \<Rightarrow> symbol list \<Rightarrow> error + symbol list" where
  "load_lines [] syms = Inr syms"
| "load_lines (line # rest) syms =
     (let parts = split_on TAB (strip line) in
      if length parts = 3 then
        (case py_int (parts ! 2) of
           None \<Rightarrow> Inl ValueError
         | Some n \<Rightarrow>
             load_lines rest
               (syms @ [\<lparr>sym_type = parts ! 0, sym_value = parts ! 1, sym_line = n\<rparr>]))
      else load_lines rest syms)"

definition load :: "SymbolTable \<Rightarrow> error + SymbolTable" where
  "load t =
     (case file_text t of
        None \<Rightarrow> Inr t
      | Some text \<Rightarrow>
          (case load_lines (drop 8 (readlines text)) (symbols t) of
             Inl e \<Rightarrow> Inl e
           | Inr syms \<Rightarrow> Inr (t\<lparr>symbols := syms\<rparr>)))"

text \<open>\<open>SymbolTable()\<close> over the file as it stands.\<close>

definition SymbolTable_init :: "string option \<Rightarrow> error + SymbolTable" where
  "SymbolTable_init f = load \<lparr>symbols = [], file_text = create_file f\<rparr>"

section \<open>The lexical analyzer\<close>

definition KEYWORDS :: "string list" where
  "KEYWORDS = [''if'', ''else'', ''while'', ''for'', ''function'', ''return'',
               ''int'', ''float'', ''string'', ''bool'', ''true'', ''false'',
               ''print'', ''input'', ''and'', ''or'', ''not'']"

definition operators :: "char list" where
  "operators = [CHR ''+'', CHR ''-'', CHR ''*'', CHR ''/'', CHR ''='', CHR ''!'', CHR ''<'',
                CHR ''>'', CHR ''&'', CHR ''|'', CHR ''('', CHR '')'', CHR ''{'', CHR ''}'',
                CHR ''['', CHR '']'', CHR '';'', CHR '','']"

definition two_char_ops :: "string list" where
  "two_char_ops = [''=='', ''!='', ''<='', ''>='', ''&&'', ''||'']"

record LexicalAnalyzer =
  symbol_table :: SymbolTable
  errors :: "string list"

text \<open>
  The messages, as the f-strings build them. Their accented letters are the code points
  0xE9, 0xED, 0xFA and 0xE1.
\<close>

definition error_prefix :: "int \<Rightarrow> string" where
  "error_prefix line_num =
     ''Error l'' @ [CHR 0xE9] @ ''xico en l'' @ [CHR 0xED] @ ''nea '' @ str_int line_num @ '': ''"

definition error_points :: "int \<Rightarrow> string" where
  "error_points line_num =
     error_prefix line_num @ ''N'' @ [CHR 0xFA] @ ''mero con m'' @ [CHR 0xFA] @
     ''ltiples puntos decimales''"

definition error_string :: "int \<Rightarrow> string" where
  "error_string line_num = error_prefix line_num @ ''String no cerrado''"

definition error_char :: "int \<Rightarrow> char \<Rightarrow> string" where
  "error_char line_num c =
     error_prefix line_num @ ''Car'' @ [CHR 0xE1] @ ''cter no reconocido '' @
     [SQUOTE, c, SQUOTE]"

definition append_error :: "string \<Rightarrow> LexicalAnalyzer \<Rightarrow> LexicalAnalyzer" where
  "append_error msg st = st\<lparr>errors := errors st @ [msg]\<rparr>"

definition emit :: "string \<Rightarrow> string \<Rightarrow> int \<Rightarrow> LexicalAnalyzer \<Rightarrow> LexicalAnalyzer" where
  "emit token_type token_value line_num st =
     st\<lparr>symbol_table := add_symbol token_type token_value line_num (symbol_table st)\<rparr>"

subsection \<open>The inner loops of \<open>tokenize_line\<close>\<close>

text \<open>\<open>while i < n and (line[i].isalnum() or line[i] == '_'): i += 1\<close>\<close>

function scan_identifier :: "string \<Rightarrow> nat \<Rightarrow> nat" where
  "scan_identifier line i =
     (if i < length line \<and> (isalnum (line ! i) \<or> line ! i = CHR ''_'')
      then scan_identifier line (i + 1) else i)"
  by pat_completeness auto
termination
  by (relation "measure (\<lambda>(line, i). length line - i)") auto

declare scan_identifier.simps [simp del]

text \<open>
  The loop over digits and points. It returns the cursor, \<open>has_decimal\<close> and the analyzer,
  whose error list grows when a second point is met, where the loop breaks.
\<close>

function scan_number ::
  "string \<Rightarrow> int \<Rightarrow> nat \<Rightarrow> bool \<Rightarrow> LexicalAnalyzer \<Rightarrow> nat \<times> bool \<times> LexicalAnalyzer" where
  "scan_number line line_num i has_decimal st =
     (if i < length line \<and> (isdigit (line ! i) \<or> line ! i = CHR ''.'') then
        (if line ! i = CHR ''.'' then
           (if has_decimal then (i, has_decimal, append_error (error_points line_num) st)
            else scan_number line line_num (i + 1) True st)
         else scan_number line line_num (i + 1) has_decimal st)
      else (i, has_decimal, st))"
  by pat_completeness auto
termination
  by (relation "measure (\<lambda>(line, line_num, i, has_decimal, st). length line - i)") auto

declare scan_number.simps [simp del]

text \<open>\<open>while i < n and line[i] != '"': i += 1\<close>\<close>

function scan_string :: "string \<Rightarrow> nat \<Rightarrow> nat" where
  "scan_string line i =
     (if i < length line \<and> line ! i \<noteq> DQUOTE then scan_string line (i + 1) else i)"
  by pat_completeness auto
termination
  by (relation "measure (\<lambda>(line, i). length line - i)") auto

declare scan_string.simps [simp del]

subsection \<open>One iteration of the loop of \<open>tokenize_line\<close>\<close>

text \<open>
  An iteration ends with the cursor at a new place and the loop going on (\<open>continue\<close>, or
  the end of the body), or with \<open>break\<close>.
\<close>

datatype loop = Continue nat LexicalAnalyzer | Break LexicalAnalyzer

definition step :: "string \<Rightarrow> int \<Rightarrow> nat \<Rightarrow> LexicalAnalyzer \<Rightarrow> loop" where
  "step line line_num i st =
     (let n = length line; char = line ! i in
      if isspace char then Continue (i + 1) st
      else if isalpha char \<or> char = CHR ''_'' then
        (let start = i; j = scan_identifier line i; identifier = slice line start j in
         if identifier \<in> set KEYWORDS
         then Continue j (emit ''PALABRA_RESERVADA'' identifier line_num st)
         else Continue j (emit ''IDENTIFICADOR'' identifier line_num st))
      else if isdigit char then
        (let start = i in
         case scan_number line line_num i False st of
           (j, has_decimal, st1) \<Rightarrow>
             (let number = slice line start j in
              if has_decimal then Continue j (emit ''NUMERO_DECIMAL'' number line_num st1)
              else Continue j (emit ''NUMERO_ENTERO'' number line_num st1)))
      else if char = DQUOTE then
        (let start = i; j = scan_string line (i + 1) in
         if j \<ge> n then Break (append_error (error_string line_num) st)
         else (let string_literal = slice line start (j + 1) in
               Continue (j + 1) (emit ''STRING'' string_literal line_num st)))
      else if i + 1 < n \<and> line ! i = CHR ''/'' \<and> line ! (i + 1) = CHR ''/'' then Break st
      else if char \<in> set operators then
        (if i + 1 < n \<and> [char, line ! (i + 1)] \<in> set two_char_ops
         then Continue (i + 2) (emit ''OPERADOR'' [char, line ! (i + 1)] line_num st)
         else Continue (i + 1) (emit ''OPERADOR'' [char] line_num st))
      else Continue (i + 1) (append_error (error_char line_num char) st))"

subsection \<open>The cursor moves forward\<close>

lemma scan_identifier_ge: "i \<le> scan_identifier line i"
proof (induction line i rule: scan_identifier.induct)
  case (1 line i)
  show ?case
  proof (cases "i < length line \<and> (isalnum (line ! i) \<or> line ! i = CHR ''_'')")
    case True
    with 1 have "i + 1 \<le> scan_identifier line (i + 1)" by simp
    with True show ?thesis by (subst scan_identifier.simps) simp
  next
    case False
    then show ?thesis by (subst scan_identifier.simps) auto
  qed
qed

lemma scan_identifier_gt:
  "i < length line \<Longrightarrow> isalnum (line ! i) \<or> line ! i = CHR ''_'' \<Longrightarrow> i < scan_identifier line i"
  using scan_identifier_ge [of "i + 1" line] by (subst scan_identifier.simps) simp

lemma scan_number_ge: "i \<le> fst (scan_number line line_num i has_decimal st)"
proof (induction line line_num i has_decimal st rule: scan_number.induct)
  case (1 line line_num i has_decimal st)
  show ?case
  proof (cases "i < length line \<and> (isdigit (line ! i) \<or> line ! i = CHR ''.'')")
    case False
    then show ?thesis by (subst scan_number.simps) auto
  next
    case True
    note in_run = True
    show ?thesis
    proof (cases "line ! i = CHR ''.''")
      case False
      with in_run 1(2) have "i + 1 \<le> fst (scan_number line line_num (i + 1) has_decimal st)"
        by simp
      with in_run False show ?thesis by (subst scan_number.simps) simp
    next
      case True
      note point = True
      show ?thesis
      proof (cases has_decimal)
        case True
        with in_run point show ?thesis by (subst scan_number.simps) simp
      next
        case False
        with in_run point 1(1) have "i + 1 \<le> fst (scan_number line line_num (i + 1) True st)"
          by simp
        with in_run point False show ?thesis by (subst scan_number.simps) simp
      qed
    qed
  qed
qed

lemma scan_number_gt:
  "i < length line \<Longrightarrow> isdigit (line ! i) \<Longrightarrow> line ! i \<noteq> CHR ''.'' \<Longrightarrow>
   i < fst (scan_number line line_num i has_decimal st)"
  using scan_number_ge [of "i + 1" line line_num has_decimal st]
  by (subst scan_number.simps) simp

lemma isdigit_not_point: "isdigit c \<Longrightarrow> c \<noteq> CHR ''.''"
  by (auto simp: isdigit_def between_def Let_def)

lemma isalpha_isalnum: "isalpha c \<Longrightarrow> isalnum c"
  by (simp add: isalnum_def Let_def)

lemma scan_string_ge: "i \<le> scan_string line i"
proof (induction line i rule: scan_string.induct)
  case (1 line i)
  show ?case
  proof (cases "i < length line \<and> line ! i \<noteq> DQUOTE")
    case True
    with 1 have "i + 1 \<le> scan_string line (i + 1)" by simp
    with True show ?thesis by (subst scan_string.simps) simp
  next
    case False
    then show ?thesis by (subst scan_string.simps) auto
  qed
qed

lemma step_advances:
  assumes "i < length line" and "step line line_num i st = Continue j st'"
  shows "i < j"
proof -
  have id: "isalpha (line ! i) \<or> line ! i = CHR ''_'' \<Longrightarrow> i < scan_identifier line i"
    using assms(1) scan_identifier_gt isalpha_isalnum by blast
  have num: "isdigit (line ! i) \<Longrightarrow> i < fst (scan_number line line_num i False st)"
    using assms(1) scan_number_gt isdigit_not_point by blast
  have str: "i < scan_string line (i + 1) + 1"
    using scan_string_ge [of "i + 1" line] by simp
  show ?thesis
    using assms(2) id num str
    by (auto simp: step_def Let_def split: if_splits prod.splits)
qed

subsection \<open>\<open>tokenize_line\<close> and \<open>analyze\<close>\<close>

text \<open>The \<open>while i < n\<close> loop of \<open>tokenize_line\<close>, from the cursor \<open>i\<close>.\<close>

function tokenize_from :: "string \<Rightarrow> int \<Rightarrow> nat \<Rightarrow> LexicalAnalyzer \<Rightarrow> LexicalAnalyzer" where
  "tokenize_from line line_num i st =
     (if i < length line then
        (case step line line_num i st of
           Continue j st' \<Rightarrow> tokenize_from line line_num j st'
         | Break st' \<Rightarrow> st')
      else st)"
  by pat_completeness auto
termination
proof (relation "measure (\<lambda>(line, line_num, i, st). length line - i)")
  show "wf (measure (\<lambda>(line, line_num, i, st). length line - i))"
    by simp
next
  fix line :: string and line_num :: int and i j :: nat and st st' :: LexicalAnalyzer
  assume inside: "i < length line" and continues: "step line line_num i st = Continue j st'"
  from inside continues have "i < j"
    by (rule step_advances)
  with inside show "((line, line_num, j, st'), (line, line_num, i, st))
      \<in> measure (\<lambda>(line, line_num, i, st). length line - i)"
    by simp
qed

declare tokenize_from.simps [simp del]

definition tokenize_line :: "string \<Rightarrow> int \<Rightarrow> LexicalAnalyzer \<Rightarrow> LexicalAnalyzer" where
  "tokenize_line line line_num st = tokenize_from line line_num 0 st"

text \<open>\<open>for line_num, line in enumerate(lines, 1): self.tokenize_line(line, line_num)\<close>\<close>

fun analyze_lines :: "string list \<Rightarrow> int \<Rightarrow> LexicalAnalyzer \<Rightarrow> LexicalAnalyzer" where
  "analyze_lines [] line_num st = st"
| "analyze_lines (line # rest) line_num st =
     analyze_lines rest (line_num + 1) (tokenize_line line line_num st)"

definition analyze :: "string \<Rightarrow> LexicalAnalyzer \<Rightarrow> LexicalAnalyzer" where
  "analyze code st =
     (let st1 = st\<lparr>symbol_table := clear (symbol_table st)\<rparr>;
          st2 = st1\<lparr>errors := []\<rparr>;
          lines = split_on NL code
      in analyze_lines lines 1 st2)"

section \<open>States used in the statements\<close>

text \<open>
  The analyzer as \<open>analyze\<close> leaves it before the first line is scanned: the table is
  cleared and saved, the error list is empty.
\<close>

definition after_reset :: LexicalAnalyzer where
  "after_reset =
     \<lparr>symbol_table = \<lparr>symbols = [], file_text = Some header_save\<rparr>, errors = []\<rparr>"

text \<open>\<open>LexicalAnalyzer()\<close> over the file as it stands.\<close>

definition LexicalAnalyzer_init :: "string option \<Rightarrow> error + LexicalAnalyzer" where
  "LexicalAnalyzer_init f =
     (case SymbolTable_init f of
        Inl e \<Rightarrow> Inl e
      | Inr t \<Rightarrow> Inr \<lparr>symbol_table = t, errors = []\<rparr>)"

text \<open>The analyzer that \<open>LexicalAnalyzer()\<close> builds when the file does not exist yet.\<close>

definition analyzer0 :: LexicalAnalyzer where
  "analyzer0 =
     \<lparr>symbol_table = \<lparr>symbols = [], file_text = Some header_create\<rparr>, errors = []\<rparr>"

section \<open>Counting tokens and iterations\<close>

text \<open>
  Whether the iteration at the cursor \<open>i\<close> recognizes a token: it does in the identifier,
  number, closed-string and operator branches, and does not at whitespace, at a comment,
  at a string that the line does not close and at an unrecognized character.
\<close>

definition recognizes_token :: "string \<Rightarrow> nat \<Rightarrow> bool" where
  "recognizes_token line i =
     (let n = length line; char = line ! i in
      if isspace char then False
      else if isalpha char \<or> char = CHR ''_'' then True
      else if isdigit char then True
      else if char = DQUOTE then scan_string line (i + 1) < n
      else if i + 1 < n \<and> line ! i = CHR ''/'' \<and> line ! (i + 1) = CHR ''/'' then False
      else char \<in> set operators)"

text \<open>The number of tokens recognized by the loop of \<open>tokenize_line\<close> from the cursor \<open>i\<close>.\<close>

function count_tokens :: "string \<Rightarrow> int \<Rightarrow> nat \<Rightarrow> LexicalAnalyzer \<Rightarrow> nat" where
  "count_tokens line line_num i st =
     (if i < length line then
        (case step line line_num i st of
           Continue j st' \<Rightarrow>
             (if recognizes_token line i then 1 else 0) + count_tokens line line_num j st'
         | Break st' \<Rightarrow> 0)
      else 0)"
  by pat_completeness auto
termination
proof (relation "measure (\<lambda>(line, line_num, i, st). length line - i)")
  show "wf (measure (\<lambda>(line, line_num, i, st). length line - i))"
    by simp
next
  fix line :: string and line_num :: int and i j :: nat and st st' :: LexicalAnalyzer
  assume inside: "i < length line" and continues: "step line line_num i st = Continue j st'"
  from inside continues have "i < j"
    by (rule step_advances)
  with inside show "((line, line_num, j, st'), (line, line_num, i, st))
      \<in> measure (\<lambda>(line, line_num, i, st). length line - i)"
    by simp
qed

declare count_tokens.simps [simp del]

fun count_lines :: "string list \<Rightarrow> int \<Rightarrow> LexicalAnalyzer \<Rightarrow> nat" where
  "count_lines [] line_num st = 0"
| "count_lines (line # rest) line_num st =
     count_tokens line line_num 0 st +
     count_lines rest (line_num + 1) (tokenize_line line line_num st)"

definition tokens_recognized :: "string \<Rightarrow> nat" where
  "tokens_recognized code = count_lines (split_on NL code) 1 after_reset"

text \<open>
  The loop of \<open>tokenize_line\<close> with a bound on the number of its iterations: \<open>None\<close> when
  the bound is used up before the loop ends.
\<close>

fun tokenize_bounded ::
  "nat \<Rightarrow> string \<Rightarrow> int \<Rightarrow> nat \<Rightarrow> LexicalAnalyzer \<Rightarrow> LexicalAnalyzer option" where
  "tokenize_bounded 0 line line_num i st = (if i < length line then None else Some st)"
| "tokenize_bounded (Suc fuel) line line_num i st =
     (if i < length line then
        (case step line line_num i st of
           Continue j st' \<Rightarrow> tokenize_bounded fuel line line_num j st'
         | Break st' \<Rightarrow> Some st')
      else Some st)"

fun analyze_lines_bounded ::
  "nat \<Rightarrow> string list \<Rightarrow> int \<Rightarrow> LexicalAnalyzer \<Rightarrow> LexicalAnalyzer option" where
  "analyze_lines_bounded fuel [] line_num st = Some st"
| "analyze_lines_bounded fuel (line # rest) line_num st =
     (case tokenize_bounded fuel line line_num 0 st of
        None \<Rightarrow> None
      | Some st' \<Rightarrow> analyze_lines_bounded fuel rest (line_num + 1) st')"

definition analyze_bounded :: "nat \<Rightarrow> string \<Rightarrow> LexicalAnalyzer \<Rightarrow> LexicalAnalyzer option" where
  "analyze_bounded fuel code st =
     (let st1 = st\<lparr>symbol_table := clear (symbol_table st)\<rparr>;
          st2 = st1\<lparr>errors := []\<rparr>;
          lines = split_on NL code
      in analyze_lines_bounded fuel lines 1 st2)"

text \<open>
  The cursor and the analyzer after \<open>k\<close> iterations of the loop of \<open>tokenize_line\<close>
  that started at the cursor \<open>i\<close>: \<open>None\<close> when the loop has ended before.
\<close>

fun after_iterations ::
  "nat \<Rightarrow> string \<Rightarrow> int \<Rightarrow> nat \<Rightarrow> LexicalAnalyzer \<Rightarrow> (nat \<times> LexicalAnalyzer) option" where
  "after_iterations 0 line line_num i st = Some (i, st)"
| "after_iterations (Suc k) line line_num i st =
     (if i < length line then
        (case step line line_num i st of
           Continue j st' \<Rightarrow> after_iterations k line line_num j st'
         | Break st' \<Rightarrow> None)
      else None)"

section \<open>Facts about the character classes and the reset\<close>

lemma readlines_header_save: "drop 8 (readlines header_save) = []"
  by (simp add: readlines_def header_save_def)

lemma LexicalAnalyzer_init_None: "LexicalAnalyzer_init None = Inr analyzer0"
  by code_simp

lemma reset_state:
  "st\<lparr>symbol_table := clear (symbol_table st), errors := []\<rparr> = after_reset"
proof (cases st)
  case (fields t errs)
  then show ?thesis
    by (cases t) (simp add: after_reset_def clear_def save_def save_text_def)
qed

lemma analyze_start: "analyze code st = analyze_lines (split_on NL code) 1 after_reset"
  by (simp add: analyze_def Let_def reset_state)

lemma isalpha_not_isspace: "isalpha c \<Longrightarrow> \<not> isspace c"
  by (auto simp: isalpha_def isspace_def between_def Let_def)

lemma isdigit_not_isspace: "isdigit c \<Longrightarrow> \<not> isspace c"
  by (auto simp: isdigit_def isspace_def between_def Let_def)

lemma isdigit_not_isalpha: "isdigit c \<Longrightarrow> \<not> isalpha c"
  by (auto simp: isdigit_def isalpha_def between_def Let_def)

lemma underscore_class:
  "\<not> isspace (CHR ''_'')" "\<not> isdigit (CHR ''_'')" "\<not> isalpha (CHR ''_'')"
  by (simp_all add: isspace_def isdigit_def isalpha_def between_def Let_def)

lemma point_class:
  "\<not> isspace (CHR ''.'')" "\<not> isdigit (CHR ''.'')" "\<not> isalpha (CHR ''.'')"
  "CHR ''.'' \<notin> set operators"
  by (simp_all add: isspace_def isdigit_def isalpha_def between_def Let_def operators_def)

lemma dquote_class:
  "\<not> isspace DQUOTE" "\<not> isdigit DQUOTE" "\<not> isalpha DQUOTE"
  by (simp_all add: isspace_def isdigit_def isalpha_def between_def Let_def)

lemma operators_class:
  assumes "c \<in> set operators"
  shows "\<not> isspace c" "\<not> isalpha c" "c \<noteq> CHR ''_''" "\<not> isdigit c" "c \<noteq> DQUOTE"
  using assms
  by (auto simp: operators_def isspace_def isdigit_def isalpha_def between_def Let_def)

lemma drop_eq_ConsD:
  assumes "drop i xs = y # ys"
  shows "i < length xs" and "xs ! i = y" and "drop (Suc i) xs = ys"
proof -
  show inside: "i < length xs"
    using assms by (cases "i < length xs") auto
  from inside have "drop i xs = xs ! i # drop (Suc i) xs"
    by (simp add: Cons_nth_drop_Suc)
  with assms show "xs ! i = y" and "drop (Suc i) xs = ys"
    by simp_all
qed

lemma scan_identifier_takeWhile:
  "scan_identifier line i =
     i + length (takeWhile (\<lambda>c. isalnum c \<or> c = CHR ''_'') (drop i line))"
proof (induction line i rule: scan_identifier.induct)
  case (1 line i)
  show ?case
  proof (cases "i < length line")
    case False
    then show ?thesis by (subst scan_identifier.simps) simp
  next
    case True
    then have unfold: "drop i line = line ! i # drop (Suc i) line"
      by (simp add: Cons_nth_drop_Suc)
    show ?thesis
    proof (cases "isalnum (line ! i) \<or> line ! i = CHR ''_''")
      case False
      with True unfold show ?thesis by (subst scan_identifier.simps) auto
    next
      case inrun: True
      with True 1 have "scan_identifier line (i + 1) =
          i + 1 + length (takeWhile (\<lambda>c. isalnum c \<or> c = CHR ''_'') (drop (i + 1) line))"
        by simp
      with True inrun unfold show ?thesis by (subst scan_identifier.simps) auto
    qed
  qed
qed

lemma scan_string_takeWhile:
  "scan_string line i = i + length (takeWhile (\<lambda>c. c \<noteq> DQUOTE) (drop i line))"
proof (induction line i rule: scan_string.induct)
  case (1 line i)
  show ?case
  proof (cases "i < length line")
    case False
    then show ?thesis by (subst scan_string.simps) simp
  next
    case True
    then have unfold: "drop i line = line ! i # drop (Suc i) line"
      by (simp add: Cons_nth_drop_Suc)
    show ?thesis
    proof (cases "line ! i \<noteq> DQUOTE")
      case False
      with True unfold show ?thesis by (subst scan_string.simps) auto
    next
      case inrun: True
      with True 1 have "scan_string line (i + 1) =
          i + 1 + length (takeWhile (\<lambda>c. c \<noteq> DQUOTE) (drop (i + 1) line))"
        by simp
      with True inrun unfold show ?thesis by (subst scan_string.simps) auto
    qed
  qed
qed

lemma length_takeWhile_drop: "i \<le> length xs \<Longrightarrow> i + length (takeWhile P (drop i xs)) \<le> length xs"
  using length_takeWhile_le [of P "drop i xs"] by simp

lemma scan_identifier_le: "i \<le> length line \<Longrightarrow> scan_identifier line i \<le> length line"
  by (simp add: scan_identifier_takeWhile length_takeWhile_drop)

lemma scan_string_le: "i \<le> length line \<Longrightarrow> scan_string line i \<le> length line"
  by (simp add: scan_string_takeWhile length_takeWhile_drop)

lemma scan_number_le:
  "i \<le> length line \<Longrightarrow> fst (scan_number line line_num i has_decimal st) \<le> length line"
proof (induction line line_num i has_decimal st rule: scan_number.induct)
  case (1 line line_num i has_decimal st)
  show ?case
  proof (cases "i < length line \<and> (isdigit (line ! i) \<or> line ! i = CHR ''.'')")
    case False
    with 1(3) show ?thesis by (subst scan_number.simps) auto
  next
    case in_run: True
    show ?thesis
    proof (cases "line ! i = CHR ''.''")
      case False
      with in_run 1(2) have "fst (scan_number line line_num (i + 1) has_decimal st) \<le> length line"
        by simp
      with in_run False show ?thesis by (subst scan_number.simps) simp
    next
      case point: True
      show ?thesis
      proof (cases has_decimal)
        case True
        with in_run point show ?thesis by (subst scan_number.simps) simp
      next
        case False
        with in_run point 1(1) have "fst (scan_number line line_num (i + 1) True st) \<le> length line"
          by simp
        with in_run point False show ?thesis by (subst scan_number.simps) simp
      qed
    qed
  qed
qed

lemma slice_takeWhile: "slice xs i (i + length (takeWhile P (drop i xs))) = takeWhile P (drop i xs)"
proof -
  have "take (length (takeWhile P (drop i xs))) (drop i xs) = takeWhile P (drop i xs)"
    by (metis append_eq_conv_conj takeWhile_dropWhile_id)
  then show ?thesis by (simp add: slice_def)
qed

lemma drop_append_rest:
  assumes "drop i xs = ys @ zs"
  shows "drop (i + length ys) xs = zs"
proof -
  have "drop (length ys) (drop i xs) = zs"
    by (simp add: assms)
  then show ?thesis by (simp add: add.commute)
qed

lemma scan_number_digits:
  "drop i line = ds @ rest \<Longrightarrow> list_all isdigit ds \<Longrightarrow>
   scan_number line line_num i has_decimal st =
     scan_number line line_num (i + length ds) has_decimal st"
proof (induction ds arbitrary: i)
  case Nil
  then show ?case by simp
next
  case (Cons a ds)
  from Cons.prems(1) have here: "i < length line" "line ! i = a" "drop (Suc i) line = ds @ rest"
    using drop_eq_ConsD [of i line a "ds @ rest"] by simp_all
  from Cons.prems(2) have digit: "isdigit a" and digits: "list_all isdigit ds"
    by simp_all
  from digit have nopoint: "a \<noteq> CHR ''.''"
    by (rule isdigit_not_point)
  have "scan_number line line_num i has_decimal st =
      scan_number line line_num (i + 1) has_decimal st"
    using here(1,2) digit nopoint by (subst scan_number.simps) simp
  also have "\<dots> = scan_number line line_num (Suc i + length ds) has_decimal st"
    using Cons.IH [of "Suc i"] here(3) digits by simp
  finally show ?case by simp
qed

lemma scan_number_first_point:
  assumes "drop i line = CHR ''.'' # rest"
  shows "scan_number line line_num i False st = scan_number line line_num (i + 1) True st"
proof -
  from assms have "i < length line" "line ! i = CHR ''.''"
    using drop_eq_ConsD [of i line "CHR ''.''" rest] by simp_all
  then show ?thesis by (subst scan_number.simps) simp
qed

lemma scan_number_second_point:
  assumes "drop i line = CHR ''.'' # rest"
  shows "scan_number line line_num i True st =
           (i, True, append_error (error_points line_num) st)"
proof -
  from assms have "i < length line" "line ! i = CHR ''.''"
    using drop_eq_ConsD [of i line "CHR ''.''" rest] by simp_all
  then show ?thesis by (subst scan_number.simps) simp
qed

lemma scan_number_two_points:
  assumes "drop i line = d1 @ CHR ''.'' # d2 @ CHR ''.'' # rest"
    and "list_all isdigit d1" and "list_all isdigit d2"
  shows "scan_number line line_num i False st =
           (i + length d1 + 1 + length d2, True, append_error (error_points line_num) st)"
proof -
  have after1: "drop (i + length d1) line = CHR ''.'' # d2 @ CHR ''.'' # rest"
    using assms(1) by (rule drop_append_rest)
  then have after2: "drop (i + length d1 + 1) line = d2 @ CHR ''.'' # rest"
    using drop_eq_ConsD(3) [of "i + length d1" line] by simp
  then have after3: "drop (i + length d1 + 1 + length d2) line = CHR ''.'' # rest"
    by (rule drop_append_rest)
  have "scan_number line line_num i False st =
      scan_number line line_num (i + length d1) False st"
    using assms(1,2) by (rule scan_number_digits)
  also have "\<dots> = scan_number line line_num (i + length d1 + 1) True st"
    using after1 by (rule scan_number_first_point)
  also have "\<dots> = scan_number line line_num (i + length d1 + 1 + length d2) True st"
    using after2 assms(3) by (rule scan_number_digits)
  also have "\<dots> =
      (i + length d1 + 1 + length d2, True, append_error (error_points line_num) st)"
    using after3 by (rule scan_number_second_point)
  finally show ?thesis .
qed

lemma point_unrecognized:
  assumes "i < length line" and "line ! i = CHR ''.''"
  shows "step line line_num i st =
           Continue (i + 1) (append_error (error_char line_num (CHR ''.'')) st)"
  using assms point_class by (simp add: step_def Let_def)

lemma scan_number_symbol_table:
  "symbol_table (snd (snd (scan_number line line_num i has_decimal st))) = symbol_table st"
proof (induction line line_num i has_decimal st rule: scan_number.induct)
  case (1 line line_num i has_decimal st)
  show ?case
  proof (cases "i < length line \<and> (isdigit (line ! i) \<or> line ! i = CHR ''.'')")
    case False
    then show ?thesis by (subst scan_number.simps) auto
  next
    case in_run: True
    show ?thesis
    proof (cases "line ! i = CHR ''.''")
      case False
      with in_run 1(2) have "symbol_table (snd (snd (scan_number line line_num (i + 1) has_decimal st))) =
          symbol_table st"
        by simp
      with in_run False show ?thesis by (subst scan_number.simps) simp
    next
      case point: True
      show ?thesis
      proof (cases has_decimal)
        case True
        with in_run point show ?thesis
          by (subst scan_number.simps) (simp add: append_error_def)
      next
        case False
        with in_run point 1(1) have "symbol_table (snd (snd (scan_number line line_num (i + 1) True st))) =
            symbol_table st"
          by simp
        with in_run point False show ?thesis by (subst scan_number.simps) simp
      qed
    qed
  qed
qed

lemma length_symbols_emit:
  "length (symbols (symbol_table (emit token_type token_value line_num st))) =
     Suc (length (symbols (symbol_table st)))"
  by (simp add: emit_def add_symbol_def save_def)

lemma symbols_append_error:
  "symbols (symbol_table (append_error msg st)) = symbols (symbol_table st)"
  by (simp add: append_error_def)

lemma step_Continue_count:
  assumes "step line line_num i st = Continue j st'"
  shows "length (symbols (symbol_table st')) =
           length (symbols (symbol_table st)) + (if recognizes_token line i then 1 else 0)"
proof -
  have number: "symbol_table (snd (snd (scan_number line line_num i False st))) = symbol_table st"
    by (rule scan_number_symbol_table)
  obtain k h st1 where run: "scan_number line line_num i False st = (k, h, st1)"
    by (cases "scan_number line line_num i False st") auto
  with number have same: "symbol_table st1 = symbol_table st"
    by simp
  show ?thesis
    using assms
    by (auto simp: step_def recognizes_token_def Let_def run same length_symbols_emit
        symbols_append_error split: if_splits)
qed

lemma step_Break_count:
  assumes "step line line_num i st = Break st'"
  shows "symbols (symbol_table st') = symbols (symbol_table st)"
  using assms
  by (auto simp: step_def Let_def symbols_append_error split: if_splits prod.splits)

lemma tokenize_from_count:
  "length (symbols (symbol_table (tokenize_from line line_num i st))) =
     length (symbols (symbol_table st)) + count_tokens line line_num i st"
proof (induction line line_num i st rule: tokenize_from.induct)
  case (1 line line_num i st)
  show ?case
  proof (cases "i < length line")
    case False
    then show ?thesis
      by (subst tokenize_from.simps, subst count_tokens.simps) simp
  next
    case True
    show ?thesis
    proof (cases "step line line_num i st")
      case (Continue j st')
      with True 1 have "length (symbols (symbol_table (tokenize_from line line_num j st'))) =
          length (symbols (symbol_table st')) + count_tokens line line_num j st'"
        by simp
      with True Continue step_Continue_count [OF Continue] show ?thesis
        by (subst tokenize_from.simps, subst count_tokens.simps) simp
    next
      case (Break st')
      with True step_Break_count [OF Break] show ?thesis
        by (subst tokenize_from.simps, subst count_tokens.simps) simp
    qed
  qed
qed

lemma analyze_lines_count:
  "length (symbols (symbol_table (analyze_lines lines line_num st))) =
     length (symbols (symbol_table st)) + count_lines lines line_num st"
  by (induction lines arbitrary: line_num st) (simp_all add: tokenize_line_def tokenize_from_count)

lemma step_bounded:
  assumes "i < length line" and "step line line_num i st = Continue j st'"
  shows "j \<le> length line"
proof -
  have id: "scan_identifier line i \<le> length line"
    using assms(1) by (simp add: scan_identifier_le)
  have num: "fst (scan_number line line_num i False st) \<le> length line"
    using assms(1) by (simp add: scan_number_le)
  show ?thesis
    using assms id num
    by (auto simp: step_def Let_def split: if_splits prod.splits)
qed

lemma tokenize_bounded_enough:
  "length line - i \<le> fuel \<Longrightarrow>
   tokenize_bounded fuel line line_num i st = Some (tokenize_from line line_num i st)"
proof (induction fuel arbitrary: i st)
  case 0
  then show ?case by (subst tokenize_from.simps) simp
next
  case (Suc fuel)
  show ?case
  proof (cases "i < length line")
    case False
    then show ?thesis by (subst tokenize_from.simps) simp
  next
    case True
    show ?thesis
    proof (cases "step line line_num i st")
      case (Break st')
      with True show ?thesis by (subst tokenize_from.simps) simp
    next
      case (Continue j st')
      with True have "i < j"
        by (rule step_advances)
      with Suc.prems True have "length line - j \<le> fuel"
        by simp
      then have "tokenize_bounded fuel line line_num j st' =
          Some (tokenize_from line line_num j st')"
        by (rule Suc.IH)
      with True Continue show ?thesis by (subst tokenize_from.simps) simp
    qed
  qed
qed

lemma split_on_length: "l \<in> set (split_on sep s) \<Longrightarrow> length l \<le> length s"
proof (induction s arbitrary: l)
  case Nil
  then show ?case by simp
next
  case (Cons c cs)
  show ?case
  proof (cases "c = sep")
    case True
    with Cons show ?thesis by (auto simp: le_Suc_eq)
  next
    case False
    show ?thesis
    proof (cases "split_on sep cs")
      case Nil
      with False Cons.prems show ?thesis by simp
    next
      case (Cons first others)
      with False Cons.prems have "l = c # first \<or> l \<in> set others"
        by simp
      moreover from Cons have "first \<in> set (split_on sep cs)"
        by simp
      then have "length first \<le> length cs"
        by (rule Cons.IH)
      moreover have "l \<in> set others \<Longrightarrow> length l \<le> length cs"
        using Cons Cons.IH [of l] by simp
      ultimately show ?thesis by auto
    qed
  qed
qed

lemma analyze_lines_bounded_enough:
  "\<forall>l\<in>set lines. length l \<le> fuel \<Longrightarrow>
   analyze_lines_bounded fuel lines line_num st = Some (analyze_lines lines line_num st)"
proof (induction lines arbitrary: line_num st)
  case Nil
  then show ?case by simp
next
  case (Cons line rest)
  then have "length line - 0 \<le> fuel"
    by simp
  then have "tokenize_bounded fuel line line_num 0 st = Some (tokenize_from line line_num 0 st)"
    by (rule tokenize_bounded_enough)
  with Cons show ?case
    by (simp add: tokenize_line_def)
qed

lemma analyze_bounded_enough:
  "analyze_bounded (length code) code st = Some (analyze code st)"
proof -
  have "\<forall>l\<in>set (split_on NL code). length l \<le> length code"
    by (simp add: split_on_length)
  then show ?thesis
    by (simp add: analyze_bounded_def analyze_def Let_def analyze_lines_bounded_enough)
qed

lemma after_iterations_tokenize_from:
  "after_iterations k line line_num i st = Some (j, st') \<Longrightarrow>
   tokenize_from line line_num i st = tokenize_from line line_num j st'"
proof (induction k arbitrary: i st)
  case 0
  then show ?case by simp
next
  case (Suc k)
  from Suc.prems have inside: "i < length line"
    by (simp split: if_splits)
  show ?case
  proof (cases "step line line_num i st")
    case (Break st1)
    with Suc.prems inside show ?thesis by simp
  next
    case (Continue j1 st1)
    with Suc.prems inside have "after_iterations k line line_num j1 st1 = Some (j, st')"
      by simp
    then have "tokenize_from line line_num j1 st1 = tokenize_from line line_num j st'"
      by (rule Suc.IH)
    with inside Continue show ?thesis
      by (subst tokenize_from.simps) simp
  qed
qed

section \<open>The symbol table: clearing and reloading\<close>

text \<open>
  C9. After \<open>clear()\<close>, a fresh \<open>SymbolTable\<close> constructed over the same file has no
  entries: the file then holds the three header lines that \<open>save\<close> writes, and the loader
  skips them.
\<close>

theorem clear_then_fresh_table_is_empty:
  "SymbolTable_init (file_text (clear t)) = Inr \<lparr>symbols = [], file_text = Some header_save\<rparr>"
  by (simp add: SymbolTable_init_def clear_def save_def save_text_def create_file_def
      load_def readlines_header_save)

section \<open>A complete run\<close>

text \<open>
  C7. On the input \<open>x = 3.5;\<close> the table holds, in this order, the identifier \<open>x\<close>, the
  operator \<open>=\<close>, the decimal number \<open>3.5\<close> and the operator \<open>;\<close>, each on line 1, and
  the error list is empty, whatever the analyzer held before.
\<close>

theorem analyze_assignment:
  "symbols (symbol_table (analyze ''x = 3.5;'' st)) =
     [\<lparr>sym_type = ''IDENTIFICADOR'', sym_value = ''x'', sym_line = 1\<rparr>,
      \<lparr>sym_type = ''OPERADOR'', sym_value = ''='', sym_line = 1\<rparr>,
      \<lparr>sym_type = ''NUMERO_DECIMAL'', sym_value = ''3.5'', sym_line = 1\<rparr>,
      \<lparr>sym_type = ''OPERADOR'', sym_value = '';'', sym_line = 1\<rparr>]
   \<and> errors (analyze ''x = 3.5;'' st) = []"
  unfolding analyze_start by code_simp

section \<open>One iteration of the scanning loop, by the class of its first character\<close>

text \<open>
  C5. At a letter or an underscore the scanner consumes the maximal run of alphanumeric
  characters and underscores: every character of the lexeme \<open>w\<close> is of that kind, and the
  run ends at the end of the line or before a character that is not. It appends one entry
  to the table, with the lexeme and the line, and saves the table; the errors stay as they
  were. The entry is a \<open>PALABRA_RESERVADA\<close> when \<open>w\<close> is an element of \<open>KEYWORDS\<close>, compared
  as a string (so with the case of its letters), and an \<open>IDENTIFICADOR\<close> otherwise: in
  \<open>If if_ x9 _y if\<close> only the last word is a reserved word.
\<close>

theorem identifier_or_keyword:
  assumes "i < length line"
    and "isalpha (line ! i) \<or> line ! i = CHR ''_''"
    and "w = takeWhile (\<lambda>c. isalnum c \<or> c = CHR ''_'') (drop i line)"
    and "kind = (if w \<in> set KEYWORDS then ''PALABRA_RESERVADA'' else ''IDENTIFICADOR'')"
  shows "step line line_num i st =
           Continue (i + length w)
             (emit (if w \<in> set KEYWORDS then ''PALABRA_RESERVADA'' else ''IDENTIFICADOR'')
                w line_num st)
         \<and> w \<noteq> [] \<and> w = slice line i (i + length w)
         \<and> list_all (\<lambda>c. isalnum c \<or> c = CHR ''_'') w
         \<and> (i + length w = length line
              \<or> \<not> (isalnum (line ! (i + length w)) \<or> line ! (i + length w) = CHR ''_''))
         \<and> symbols (symbol_table (emit kind w line_num st)) =
             symbols (symbol_table st) @
               [\<lparr>sym_type = kind, sym_value = w, sym_line = line_num\<rparr>]
         \<and> file_text (symbol_table (emit kind w line_num st)) =
             Some (save_text (symbols (symbol_table st) @
               [\<lparr>sym_type = kind, sym_value = w, sym_line = line_num\<rparr>]))
         \<and> errors (emit kind w line_num st) = errors st
         \<and> symbols (symbol_table (analyze ''If if_ x9 _y if'' st0)) =
             [\<lparr>sym_type = ''IDENTIFICADOR'', sym_value = ''If'', sym_line = 1\<rparr>,
              \<lparr>sym_type = ''IDENTIFICADOR'', sym_value = ''if_'', sym_line = 1\<rparr>,
              \<lparr>sym_type = ''IDENTIFICADOR'', sym_value = ''x9'', sym_line = 1\<rparr>,
              \<lparr>sym_type = ''IDENTIFICADOR'', sym_value = ''_y'', sym_line = 1\<rparr>,
              \<lparr>sym_type = ''PALABRA_RESERVADA'', sym_value = ''if'', sym_line = 1\<rparr>]
         \<and> errors (analyze ''If if_ x9 _y if'' st0) = []"
proof -
  have nospace: "\<not> isspace (line ! i)"
    using assms(2) isalpha_not_isspace underscore_class(1) by auto
  have cursor: "scan_identifier line i = i + length w"
    by (simp add: assms(3) scan_identifier_takeWhile)
  have lexeme: "slice line i (i + length w) = w"
    by (simp add: assms(3) slice_takeWhile)
  have unfold: "drop i line = line ! i # drop (Suc i) line"
    using assms(1) by (simp add: Cons_nth_drop_Suc)
  have first: "isalnum (line ! i) \<or> line ! i = CHR ''_''"
    using assms(2) isalpha_isalnum by blast
  with unfold have nonempty: "w \<noteq> []"
    by (auto simp: assms(3))
  have inside: "list_all (\<lambda>c. isalnum c \<or> c = CHR ''_'') w"
    unfolding assms(3) list_all_iff by (auto dest: set_takeWhileD)
  have maximal: "i + length w = length line
      \<or> \<not> (isalnum (line ! (i + length w)) \<or> line ! (i + length w) = CHR ''_'')"
  proof (cases "length w < length (drop i line)")
    case True
    then have "\<not> (\<lambda>c. isalnum c \<or> c = CHR ''_'') (drop i line ! length w)"
      unfolding assms(3) by (rule nth_length_takeWhile)
    moreover from True have "drop i line ! length w = line ! (i + length w)"
      by simp
    ultimately show ?thesis by simp
  next
    case False
    moreover have "length w \<le> length (drop i line)"
      unfolding assms(3) by (rule length_takeWhile_le)
    ultimately show ?thesis using assms(1) by simp
  qed
  have one: "step line line_num i st =
           Continue (i + length w)
             (emit (if w \<in> set KEYWORDS then ''PALABRA_RESERVADA'' else ''IDENTIFICADOR'')
                w line_num st)"
    using nospace assms(2) by (simp add: step_def Let_def cursor lexeme)
  have entry: "symbols (symbol_table (emit kind w line_num st)) =
             symbols (symbol_table st) @
               [\<lparr>sym_type = kind, sym_value = w, sym_line = line_num\<rparr>]"
    by (simp add: emit_def add_symbol_def save_def)
  have saved: "file_text (symbol_table (emit kind w line_num st)) =
             Some (save_text (symbols (symbol_table st) @
               [\<lparr>sym_type = kind, sym_value = w, sym_line = line_num\<rparr>]))"
    by (simp add: emit_def add_symbol_def save_def)
  have messages: "errors (emit kind w line_num st) = errors st"
    by (simp add: emit_def)
  have run: "symbols (symbol_table (analyze ''If if_ x9 _y if'' st0)) =
             [\<lparr>sym_type = ''IDENTIFICADOR'', sym_value = ''If'', sym_line = 1\<rparr>,
              \<lparr>sym_type = ''IDENTIFICADOR'', sym_value = ''if_'', sym_line = 1\<rparr>,
              \<lparr>sym_type = ''IDENTIFICADOR'', sym_value = ''x9'', sym_line = 1\<rparr>,
              \<lparr>sym_type = ''IDENTIFICADOR'', sym_value = ''_y'', sym_line = 1\<rparr>,
              \<lparr>sym_type = ''PALABRA_RESERVADA'', sym_value = ''if'', sym_line = 1\<rparr>]
         \<and> errors (analyze ''If if_ x9 _y if'' st0) = []"
    unfolding analyze_start by code_simp
  from one nonempty lexeme inside maximal entry saved messages run show ?thesis
    by simp
qed

theorem identifier_or_keyword_witness:
  "step ''If if_ x'' 1 3 after_reset =
     Continue 6
       \<lparr>symbol_table =
          \<lparr>symbols = [\<lparr>sym_type = ''IDENTIFICADOR'', sym_value = ''if_'', sym_line = 1\<rparr>],
           file_text = Some (header_save @
             ''IDENTIFICADOR'' @ [TAB] @ ''if_'' @ [TAB] @ ''1'' @ [NL])\<rparr>,
        errors = []\<rparr>
   \<and> step ''If if'' 1 3 after_reset =
     Continue 5
       \<lparr>symbol_table =
          \<lparr>symbols = [\<lparr>sym_type = ''PALABRA_RESERVADA'', sym_value = ''if'', sym_line = 1\<rparr>],
           file_text = Some (header_save @
             ''PALABRA_RESERVADA'' @ [TAB] @ ''if'' @ [TAB] @ ''1'' @ [NL])\<rparr>,
        errors = []\<rparr>"
proof -
  have inside1: "3 < length ''If if_ x''"
    and start1: "isalpha (''If if_ x'' ! 3) \<or> ''If if_ x'' ! 3 = CHR ''_''"
    and lexeme1: "''if_'' = takeWhile (\<lambda>c. isalnum c \<or> c = CHR ''_'') (drop 3 ''If if_ x'')"
    and kind1: "''IDENTIFICADOR'' =
      (if ''if_'' \<in> set KEYWORDS then ''PALABRA_RESERVADA'' else ''IDENTIFICADOR'')"
    by (simp_all add: isalpha_def isalnum_def isdigit_def between_def KEYWORDS_def)
  note word1 = identifier_or_keyword [OF inside1 start1 lexeme1 kind1, of 1 after_reset after_reset]
  from word1 have "step ''If if_ x'' 1 3 after_reset =
     Continue (3 + length ''if_'')
       (emit (if ''if_'' \<in> set KEYWORDS then ''PALABRA_RESERVADA'' else ''IDENTIFICADOR'')
          ''if_'' 1 after_reset)"
    by (rule conjunct1)
  then have step1: "step ''If if_ x'' 1 3 after_reset =
     Continue 6 (emit ''IDENTIFICADOR'' ''if_'' 1 after_reset)"
    by (simp add: KEYWORDS_def)
  have state1: "emit ''IDENTIFICADOR'' ''if_'' 1 after_reset =
       \<lparr>symbol_table =
          \<lparr>symbols = [\<lparr>sym_type = ''IDENTIFICADOR'', sym_value = ''if_'', sym_line = 1\<rparr>],
           file_text = Some (header_save @
             ''IDENTIFICADOR'' @ [TAB] @ ''if_'' @ [TAB] @ ''1'' @ [NL])\<rparr>,
        errors = []\<rparr>"
    by code_simp
  have inside2: "3 < length ''If if''"
    and start2: "isalpha (''If if'' ! 3) \<or> ''If if'' ! 3 = CHR ''_''"
    and lexeme2: "''if'' = takeWhile (\<lambda>c. isalnum c \<or> c = CHR ''_'') (drop 3 ''If if'')"
    and kind2: "''PALABRA_RESERVADA'' =
      (if ''if'' \<in> set KEYWORDS then ''PALABRA_RESERVADA'' else ''IDENTIFICADOR'')"
    by (simp_all add: isalpha_def isalnum_def isdigit_def between_def KEYWORDS_def)
  note word2 = identifier_or_keyword [OF inside2 start2 lexeme2 kind2, of 1 after_reset after_reset]
  from word2 have "step ''If if'' 1 3 after_reset =
     Continue (3 + length ''if'')
       (emit (if ''if'' \<in> set KEYWORDS then ''PALABRA_RESERVADA'' else ''IDENTIFICADOR'')
          ''if'' 1 after_reset)"
    by (rule conjunct1)
  then have step2: "step ''If if'' 1 3 after_reset =
     Continue 5 (emit ''PALABRA_RESERVADA'' ''if'' 1 after_reset)"
    by (simp add: KEYWORDS_def)
  have state2: "emit ''PALABRA_RESERVADA'' ''if'' 1 after_reset =
       \<lparr>symbol_table =
          \<lparr>symbols = [\<lparr>sym_type = ''PALABRA_RESERVADA'', sym_value = ''if'', sym_line = 1\<rparr>],
           file_text = Some (header_save @
             ''PALABRA_RESERVADA'' @ [TAB] @ ''if'' @ [TAB] @ ''1'' @ [NL])\<rparr>,
        errors = []\<rparr>"
    by code_simp
  from step1 step2 show ?thesis
    by (simp only: state1 state2)
qed

text \<open>
  C6. At an operator character (one that does not open a \<open>//\<close> comment, which is looked
  for first) the scanner tries the two-character operators first: when the next character
  completes one of \<open>==\<close>, \<open>!=\<close>, \<open><=\<close>, \<open>>=\<close>, \<open>&&\<close>, \<open>||\<close>, that operator is emitted and
  the cursor moves by two; otherwise the one character is emitted and the cursor moves by
  one. On \<open>a <= b && c\<close> the operators in the table are \<open><=\<close> and \<open>&&\<close>.
\<close>

theorem operator_two_characters_first:
  assumes "i < length line"
    and "line ! i \<in> set operators"
    and "\<not> (i + 1 < length line \<and> line ! i = CHR ''/'' \<and> line ! (i + 1) = CHR ''/'')"
  shows "step line line_num i st =
           (if i + 1 < length line \<and> [line ! i, line ! (i + 1)] \<in> set two_char_ops
            then Continue (i + 2) (emit ''OPERADOR'' [line ! i, line ! (i + 1)] line_num st)
            else Continue (i + 1) (emit ''OPERADOR'' [line ! i] line_num st))
         \<and> symbols (symbol_table (analyze ''a <= b && c'' st0)) =
             [\<lparr>sym_type = ''IDENTIFICADOR'', sym_value = ''a'', sym_line = 1\<rparr>,
              \<lparr>sym_type = ''OPERADOR'', sym_value = ''<='', sym_line = 1\<rparr>,
              \<lparr>sym_type = ''IDENTIFICADOR'', sym_value = ''b'', sym_line = 1\<rparr>,
              \<lparr>sym_type = ''OPERADOR'', sym_value = ''&&'', sym_line = 1\<rparr>,
              \<lparr>sym_type = ''IDENTIFICADOR'', sym_value = ''c'', sym_line = 1\<rparr>]"
proof
  show "step line line_num i st =
           (if i + 1 < length line \<and> [line ! i, line ! (i + 1)] \<in> set two_char_ops
            then Continue (i + 2) (emit ''OPERADOR'' [line ! i, line ! (i + 1)] line_num st)
            else Continue (i + 1) (emit ''OPERADOR'' [line ! i] line_num st))"
    using assms(2,3) operators_class [OF assms(2)]
    by (auto simp: step_def Let_def)
next
  show "symbols (symbol_table (analyze ''a <= b && c'' st0)) =
             [\<lparr>sym_type = ''IDENTIFICADOR'', sym_value = ''a'', sym_line = 1\<rparr>,
              \<lparr>sym_type = ''OPERADOR'', sym_value = ''<='', sym_line = 1\<rparr>,
              \<lparr>sym_type = ''IDENTIFICADOR'', sym_value = ''b'', sym_line = 1\<rparr>,
              \<lparr>sym_type = ''OPERADOR'', sym_value = ''&&'', sym_line = 1\<rparr>,
              \<lparr>sym_type = ''IDENTIFICADOR'', sym_value = ''c'', sym_line = 1\<rparr>]"
    unfolding analyze_start by code_simp
qed

theorem operator_two_characters_first_witness:
  "step ''a <= b'' 1 2 after_reset = Continue 4 (emit ''OPERADOR'' ''<='' 1 after_reset)
   \<and> step ''a < b'' 1 2 after_reset = Continue 3 (emit ''OPERADOR'' ''<'' 1 after_reset)
   \<and> step ''a /'' 1 2 after_reset = Continue 3 (emit ''OPERADOR'' ''/'' 1 after_reset)"
proof -
  have a: "step ''a <= b'' 1 2 after_reset = Continue 4 (emit ''OPERADOR'' ''<='' 1 after_reset)"
    using operator_two_characters_first [of 2 "''a <= b''" 1 after_reset after_reset]
    by (simp add: operators_def two_char_ops_def)
  have b: "step ''a < b'' 1 2 after_reset = Continue 3 (emit ''OPERADOR'' ''<'' 1 after_reset)"
    using operator_two_characters_first [of 2 "''a < b''" 1 after_reset after_reset]
    by (simp add: operators_def two_char_ops_def)
  have c: "step ''a /'' 1 2 after_reset = Continue 3 (emit ''OPERADOR'' ''/'' 1 after_reset)"
    using operator_two_characters_first [of 2 "''a /''" 1 after_reset after_reset]
    by (simp add: operators_def two_char_ops_def)
  from a b c show ?thesis by simp
qed

text \<open>
  C8. At a character that is not whitespace, does not start an identifier, is not a
  digit, is not a double quote, does not open a \<open>//\<close> comment and is not an operator
  character, the scanner appends one error, whose text gives the line number and, between
  single quotes, the character; the table is left as it is, the cursor moves by one, and
  the scan of the line goes on from there. On \<open>a @ b\<close> there is one error, for \<open>@\<close> on
  line 1, and both identifiers are in the table.
\<close>

theorem unrecognized_character:
  assumes "i < length line"
    and "\<not> isspace (line ! i)"
    and "\<not> (isalpha (line ! i) \<or> line ! i = CHR ''_'')"
    and "\<not> isdigit (line ! i)"
    and "line ! i \<noteq> DQUOTE"
    and "\<not> (i + 1 < length line \<and> line ! i = CHR ''/'' \<and> line ! (i + 1) = CHR ''/'')"
    and "line ! i \<notin> set operators"
  shows "step line line_num i st =
           Continue (i + 1) (append_error (error_char line_num (line ! i)) st)
         \<and> tokenize_from line line_num i st =
             tokenize_from line line_num (i + 1)
               (append_error (error_char line_num (line ! i)) st)
         \<and> errors (append_error (error_char line_num (line ! i)) st) =
             errors st @
               [''Error l'' @ [CHR 0xE9] @ ''xico en l'' @ [CHR 0xED] @ ''nea '' @
                str_int line_num @ '': Car'' @ [CHR 0xE1] @ ''cter no reconocido '' @
                [SQUOTE, line ! i, SQUOTE]]
         \<and> symbol_table (append_error (error_char line_num (line ! i)) st) = symbol_table st
         \<and> symbols (symbol_table (analyze ''a @ b'' st0)) =
             [\<lparr>sym_type = ''IDENTIFICADOR'', sym_value = ''a'', sym_line = 1\<rparr>,
              \<lparr>sym_type = ''IDENTIFICADOR'', sym_value = ''b'', sym_line = 1\<rparr>]
         \<and> errors (analyze ''a @ b'' st0) =
             [''Error l'' @ [CHR 0xE9] @ ''xico en l'' @ [CHR 0xED] @ ''nea 1: Car'' @
              [CHR 0xE1] @ ''cter no reconocido '' @ [SQUOTE, CHR ''@'', SQUOTE]]
         \<and> errors (tokenize_line ''x $ y'' 12 after_reset) =
             [''Error l'' @ [CHR 0xE9] @ ''xico en l'' @ [CHR 0xED] @ ''nea 12: Car'' @
              [CHR 0xE1] @ ''cter no reconocido '' @ [SQUOTE, CHR ''$'', SQUOTE]]"
proof -
  have one: "step line line_num i st =
           Continue (i + 1) (append_error (error_char line_num (line ! i)) st)"
    using assms(2-7) by (simp add: step_def Let_def)
  have loop: "tokenize_from line line_num i st =
             tokenize_from line line_num (i + 1)
               (append_error (error_char line_num (line ! i)) st)"
    using assms(1) by (subst tokenize_from.simps) (simp add: one)
  have message: "errors (append_error (error_char line_num (line ! i)) st) =
             errors st @
               [''Error l'' @ [CHR 0xE9] @ ''xico en l'' @ [CHR 0xED] @ ''nea '' @
                str_int line_num @ '': Car'' @ [CHR 0xE1] @ ''cter no reconocido '' @
                [SQUOTE, line ! i, SQUOTE]]"
    by (simp add: append_error_def error_char_def error_prefix_def)
  have table: "symbol_table (append_error (error_char line_num (line ! i)) st) = symbol_table st"
    by (simp add: append_error_def)
  have run: "symbols (symbol_table (analyze ''a @ b'' st0)) =
             [\<lparr>sym_type = ''IDENTIFICADOR'', sym_value = ''a'', sym_line = 1\<rparr>,
              \<lparr>sym_type = ''IDENTIFICADOR'', sym_value = ''b'', sym_line = 1\<rparr>]
         \<and> errors (analyze ''a @ b'' st0) =
             [''Error l'' @ [CHR 0xE9] @ ''xico en l'' @ [CHR 0xED] @ ''nea 1: Car'' @
              [CHR 0xE1] @ ''cter no reconocido '' @ [SQUOTE, CHR ''@'', SQUOTE]]"
    unfolding analyze_start by code_simp
  have later: "errors (tokenize_line ''x $ y'' 12 after_reset) =
             [''Error l'' @ [CHR 0xE9] @ ''xico en l'' @ [CHR 0xED] @ ''nea 12: Car'' @
              [CHR 0xE1] @ ''cter no reconocido '' @ [SQUOTE, CHR ''$'', SQUOTE]]"
    by code_simp
  from one loop message table run later show ?thesis
    by blast
qed

theorem unrecognized_character_witness:
  "step ''a @ b'' 1 2 after_reset =
     Continue 3
       \<lparr>symbol_table = \<lparr>symbols = [], file_text = Some header_save\<rparr>,
        errors =
          [''Error l'' @ [CHR 0xE9] @ ''xico en l'' @ [CHR 0xED] @ ''nea 1: Car'' @
           [CHR 0xE1] @ ''cter no reconocido '' @ [SQUOTE, CHR ''@'', SQUOTE]]\<rparr>"
proof -
  have inside: "2 < length ''a @ b''"
    and nospace: "\<not> isspace (''a @ b'' ! 2)"
    and noword: "\<not> (isalpha (''a @ b'' ! 2) \<or> ''a @ b'' ! 2 = CHR ''_'')"
    and nodigit: "\<not> isdigit (''a @ b'' ! 2)"
    and noquote: "''a @ b'' ! 2 \<noteq> DQUOTE"
    and nocomment: "\<not> (2 + 1 < length ''a @ b'' \<and> ''a @ b'' ! 2 = CHR ''/''
        \<and> ''a @ b'' ! (2 + 1) = CHR ''/'')"
    and nooperator: "''a @ b'' ! 2 \<notin> set operators"
    by (simp_all add: isspace_def isalpha_def isdigit_def between_def operators_def)
  note at = unrecognized_character
    [OF inside nospace noword nodigit noquote nocomment nooperator, of 1 after_reset after_reset]
  from at have "step ''a @ b'' 1 2 after_reset =
      Continue (2 + 1) (append_error (error_char 1 (''a @ b'' ! 2)) after_reset)"
    by (rule conjunct1)
  then have one: "step ''a @ b'' 1 2 after_reset =
      Continue 3 (append_error (error_char 1 (CHR ''@'')) after_reset)"
    by simp
  have state: "append_error (error_char 1 (CHR ''@'')) after_reset =
       \<lparr>symbol_table = \<lparr>symbols = [], file_text = Some header_save\<rparr>,
        errors =
          [''Error l'' @ [CHR 0xE9] @ ''xico en l'' @ [CHR 0xED] @ ''nea 1: Car'' @
           [CHR 0xE1] @ ''cter no reconocido '' @ [SQUOTE, CHR ''@'', SQUOTE]]\<rparr>"
    by code_simp
  from one show ?thesis
    by (simp only: state)
qed

section \<open>Numbers with more than one point\<close>

text \<open>
  C3, the claim as stated. On \<open>3.1.4\<close> the run read before the second point, \<open>3.1\<close>, is
  in the table as a decimal number, and two errors are recorded, not one: the one for the
  several points and then one for the point itself, which no branch recognizes.
\<close>

theorem second_point_run_is_emitted:
  "symbols (symbol_table (analyze ''3.1.4'' analyzer0)) =
     [\<lparr>sym_type = ''NUMERO_DECIMAL'', sym_value = ''3.1'', sym_line = 1\<rparr>,
      \<lparr>sym_type = ''NUMERO_ENTERO'', sym_value = ''4'', sym_line = 1\<rparr>]
   \<and> errors (analyze ''3.1.4'' analyzer0) =
       [''Error l'' @ [CHR 0xE9] @ ''xico en l'' @ [CHR 0xED] @ ''nea 1: N'' @ [CHR 0xFA] @
        ''mero con m'' @ [CHR 0xFA] @ ''ltiples puntos decimales'',
        ''Error l'' @ [CHR 0xE9] @ ''xico en l'' @ [CHR 0xED] @ ''nea 1: Car'' @
        [CHR 0xE1] @ ''cter no reconocido '' @ [SQUOTE, CHR ''.'', SQUOTE]]"
  unfolding analyze_start by code_simp

text \<open>
  C3, as the code has it. When the number that starts at a digit meets a second point,
  one error is appended, whose text gives the line number and says that the number has
  several decimal points, and the number stops there; the run read so far, without that
  second point, is appended to the table as a \<open>NUMERO_DECIMAL\<close> of that line. The scan
  resumes at the second point, which is then reported by a second error as an unrecognized
  character, with the table left as it is. On \<open>3.1.4\<close> the entries are the decimal \<open>3.1\<close>
  and the integer \<open>4\<close> and the errors are those two, for line 1; on the second line of a
  text they are for line 2.
\<close>

theorem second_point_stops_number:
  assumes "drop i line = d1 @ CHR ''.'' # d2 @ CHR ''.'' # rest"
    and "d1 \<noteq> []"
    and "list_all isdigit d1"
    and "list_all isdigit d2"
    and "j = i + length d1 + 1 + length d2"
    and "st1 = emit ''NUMERO_DECIMAL'' (d1 @ CHR ''.'' # d2) line_num
                 (append_error (error_points line_num) st)"
  shows "step line line_num i st =
           Continue j
             (emit ''NUMERO_DECIMAL'' (d1 @ CHR ''.'' # d2) line_num
                (append_error (error_points line_num) st))
         \<and> step line line_num j st' =
             Continue (j + 1) (append_error (error_char line_num (CHR ''.'')) st')
         \<and> symbols (symbol_table st1) =
             symbols (symbol_table st) @
               [\<lparr>sym_type = ''NUMERO_DECIMAL'', sym_value = d1 @ CHR ''.'' # d2,
                 sym_line = line_num\<rparr>]
         \<and> errors st1 =
             errors st @
               [''Error l'' @ [CHR 0xE9] @ ''xico en l'' @ [CHR 0xED] @ ''nea '' @
                str_int line_num @ '': N'' @ [CHR 0xFA] @ ''mero con m'' @ [CHR 0xFA] @
                ''ltiples puntos decimales'']
         \<and> errors (append_error (error_char line_num (CHR ''.'')) st') =
             errors st' @
               [''Error l'' @ [CHR 0xE9] @ ''xico en l'' @ [CHR 0xED] @ ''nea '' @
                str_int line_num @ '': Car'' @ [CHR 0xE1] @ ''cter no reconocido '' @
                [SQUOTE, CHR ''.'', SQUOTE]]
         \<and> symbol_table (append_error (error_char line_num (CHR ''.'')) st') =
             symbol_table st'
         \<and> symbols (symbol_table (analyze ''3.1.4'' st0)) =
             [\<lparr>sym_type = ''NUMERO_DECIMAL'', sym_value = ''3.1'', sym_line = 1\<rparr>,
              \<lparr>sym_type = ''NUMERO_ENTERO'', sym_value = ''4'', sym_line = 1\<rparr>]
         \<and> errors (analyze ''3.1.4'' st0) =
             [''Error l'' @ [CHR 0xE9] @ ''xico en l'' @ [CHR 0xED] @ ''nea 1: N'' @
              [CHR 0xFA] @ ''mero con m'' @ [CHR 0xFA] @ ''ltiples puntos decimales'',
              ''Error l'' @ [CHR 0xE9] @ ''xico en l'' @ [CHR 0xED] @ ''nea 1: Car'' @
              [CHR 0xE1] @ ''cter no reconocido '' @ [SQUOTE, CHR ''.'', SQUOTE]]
         \<and> symbols (symbol_table (analyze (''x'' @ [NL] @ ''12.5.'') st0)) =
             [\<lparr>sym_type = ''IDENTIFICADOR'', sym_value = ''x'', sym_line = 1\<rparr>,
              \<lparr>sym_type = ''NUMERO_DECIMAL'', sym_value = ''12.5'', sym_line = 2\<rparr>]
         \<and> errors (analyze (''x'' @ [NL] @ ''12.5.'') st0) =
             [''Error l'' @ [CHR 0xE9] @ ''xico en l'' @ [CHR 0xED] @ ''nea 2: N'' @
              [CHR 0xFA] @ ''mero con m'' @ [CHR 0xFA] @ ''ltiples puntos decimales'',
              ''Error l'' @ [CHR 0xE9] @ ''xico en l'' @ [CHR 0xED] @ ''nea 2: Car'' @
              [CHR 0xE1] @ ''cter no reconocido '' @ [SQUOTE, CHR ''.'', SQUOTE]]"
proof -
  from assms(2) obtain a d1' where d1: "d1 = a # d1'"
    by (cases d1) auto
  with assms(1) have here: "i < length line" "line ! i = a"
    using drop_eq_ConsD [of i line a "d1' @ CHR ''.'' # d2 @ CHR ''.'' # rest"] by simp_all
  from d1 assms(3) have digit: "isdigit (line ! i)"
    by (simp add: here(2))
  have classes: "\<not> isspace (line ! i)" "\<not> isalpha (line ! i)" "line ! i \<noteq> CHR ''_''"
    using digit isdigit_not_isspace isdigit_not_isalpha underscore_class(2) by auto
  have run: "scan_number line line_num i False st =
      (j, True, append_error (error_points line_num) st)"
    using assms(1,3,4) unfolding assms(5) by (rule scan_number_two_points)
  have number: "slice line i j = d1 @ CHR ''.'' # d2"
    by (simp add: slice_def assms(1,5))
  have first: "step line line_num i st =
           Continue j
             (emit ''NUMERO_DECIMAL'' (d1 @ CHR ''.'' # d2) line_num
                (append_error (error_points line_num) st))"
    using classes digit by (simp add: step_def Let_def run number)
  have "drop (i + length d1) line = CHR ''.'' # d2 @ CHR ''.'' # rest"
    using assms(1) by (rule drop_append_rest)
  then have "drop (i + length d1 + 1) line = d2 @ CHR ''.'' # rest"
    using drop_eq_ConsD(3) [of "i + length d1" line] by simp
  then have "drop j line = CHR ''.'' # rest"
    unfolding assms(5) by (rule drop_append_rest)
  then have "j < length line" "line ! j = CHR ''.''"
    using drop_eq_ConsD [of j line "CHR ''.''" rest] by simp_all
  then have second: "step line line_num j st' =
             Continue (j + 1) (append_error (error_char line_num (CHR ''.'')) st')"
    by (rule point_unrecognized)
  have entry: "symbols (symbol_table st1) =
             symbols (symbol_table st) @
               [\<lparr>sym_type = ''NUMERO_DECIMAL'', sym_value = d1 @ CHR ''.'' # d2,
                 sym_line = line_num\<rparr>]"
    unfolding assms(6) by (simp add: emit_def add_symbol_def save_def append_error_def)
  have message1: "errors st1 =
             errors st @
               [''Error l'' @ [CHR 0xE9] @ ''xico en l'' @ [CHR 0xED] @ ''nea '' @
                str_int line_num @ '': N'' @ [CHR 0xFA] @ ''mero con m'' @ [CHR 0xFA] @
                ''ltiples puntos decimales'']"
    unfolding assms(6)
    by (simp add: emit_def append_error_def error_points_def error_prefix_def)
  have message2: "errors (append_error (error_char line_num (CHR ''.'')) st') =
             errors st' @
               [''Error l'' @ [CHR 0xE9] @ ''xico en l'' @ [CHR 0xED] @ ''nea '' @
                str_int line_num @ '': Car'' @ [CHR 0xE1] @ ''cter no reconocido '' @
                [SQUOTE, CHR ''.'', SQUOTE]]"
    by (simp add: append_error_def error_char_def error_prefix_def)
  have table: "symbol_table (append_error (error_char line_num (CHR ''.'')) st') =
             symbol_table st'"
    by (simp add: append_error_def)
  have literal1: "symbols (symbol_table (analyze ''3.1.4'' st0)) =
             [\<lparr>sym_type = ''NUMERO_DECIMAL'', sym_value = ''3.1'', sym_line = 1\<rparr>,
              \<lparr>sym_type = ''NUMERO_ENTERO'', sym_value = ''4'', sym_line = 1\<rparr>]
         \<and> errors (analyze ''3.1.4'' st0) =
             [''Error l'' @ [CHR 0xE9] @ ''xico en l'' @ [CHR 0xED] @ ''nea 1: N'' @
              [CHR 0xFA] @ ''mero con m'' @ [CHR 0xFA] @ ''ltiples puntos decimales'',
              ''Error l'' @ [CHR 0xE9] @ ''xico en l'' @ [CHR 0xED] @ ''nea 1: Car'' @
              [CHR 0xE1] @ ''cter no reconocido '' @ [SQUOTE, CHR ''.'', SQUOTE]]"
    unfolding analyze_start by code_simp
  have literal2: "symbols (symbol_table (analyze (''x'' @ [NL] @ ''12.5.'') st0)) =
             [\<lparr>sym_type = ''IDENTIFICADOR'', sym_value = ''x'', sym_line = 1\<rparr>,
              \<lparr>sym_type = ''NUMERO_DECIMAL'', sym_value = ''12.5'', sym_line = 2\<rparr>]
         \<and> errors (analyze (''x'' @ [NL] @ ''12.5.'') st0) =
             [''Error l'' @ [CHR 0xE9] @ ''xico en l'' @ [CHR 0xED] @ ''nea 2: N'' @
              [CHR 0xFA] @ ''mero con m'' @ [CHR 0xFA] @ ''ltiples puntos decimales'',
              ''Error l'' @ [CHR 0xE9] @ ''xico en l'' @ [CHR 0xED] @ ''nea 2: Car'' @
              [CHR 0xE1] @ ''cter no reconocido '' @ [SQUOTE, CHR ''.'', SQUOTE]]"
    unfolding analyze_start by code_simp
  from first second entry message1 message2 table literal1 literal2 show ?thesis
    by blast
qed

theorem second_point_stops_number_witness:
  "step ''3.1.4'' 1 0 after_reset =
     Continue 3
       \<lparr>symbol_table =
          \<lparr>symbols = [\<lparr>sym_type = ''NUMERO_DECIMAL'', sym_value = ''3.1'', sym_line = 1\<rparr>],
           file_text = Some (header_save @
             ''NUMERO_DECIMAL'' @ [TAB] @ ''3.1'' @ [TAB] @ ''1'' @ [NL])\<rparr>,
        errors =
          [''Error l'' @ [CHR 0xE9] @ ''xico en l'' @ [CHR 0xED] @ ''nea 1: N'' @ [CHR 0xFA] @
           ''mero con m'' @ [CHR 0xFA] @ ''ltiples puntos decimales'']\<rparr>
   \<and> step ''3.1.4'' 1 3 after_reset =
     Continue 4
       \<lparr>symbol_table = \<lparr>symbols = [], file_text = Some header_save\<rparr>,
        errors =
          [''Error l'' @ [CHR 0xE9] @ ''xico en l'' @ [CHR 0xED] @ ''nea 1: Car'' @
           [CHR 0xE1] @ ''cter no reconocido '' @ [SQUOTE, CHR ''.'', SQUOTE]]\<rparr>"
proof -
  have shape: "drop 0 ''3.1.4'' = ''3'' @ CHR ''.'' # ''1'' @ CHR ''.'' # ''4''"
    and nonempty: "''3'' \<noteq> []"
    and digits1: "list_all isdigit ''3''"
    and digits2: "list_all isdigit ''1''"
    and cursor: "(3 :: nat) = 0 + length ''3'' + 1 + length ''1''"
    by (simp_all add: isdigit_def between_def)
  note number = second_point_stops_number [OF shape nonempty digits1 digits2 cursor refl,
    of 1 after_reset after_reset]
  from number have one: "step ''3.1.4'' 1 0 after_reset =
      Continue 3 (emit ''NUMERO_DECIMAL'' (''3'' @ CHR ''.'' # ''1'') 1
        (append_error (error_points 1) after_reset))"
    by (rule conjunct1)
  from number have two: "step ''3.1.4'' 1 3 after_reset =
      Continue (3 + 1) (append_error (error_char 1 (CHR ''.'')) after_reset)"
    by blast
  have state1: "emit ''NUMERO_DECIMAL'' (''3'' @ CHR ''.'' # ''1'') 1
        (append_error (error_points 1) after_reset) =
       \<lparr>symbol_table =
          \<lparr>symbols = [\<lparr>sym_type = ''NUMERO_DECIMAL'', sym_value = ''3.1'', sym_line = 1\<rparr>],
           file_text = Some (header_save @
             ''NUMERO_DECIMAL'' @ [TAB] @ ''3.1'' @ [TAB] @ ''1'' @ [NL])\<rparr>,
        errors =
          [''Error l'' @ [CHR 0xE9] @ ''xico en l'' @ [CHR 0xED] @ ''nea 1: N'' @ [CHR 0xFA] @
           ''mero con m'' @ [CHR 0xFA] @ ''ltiples puntos decimales'']\<rparr>"
    by code_simp
  have state2: "append_error (error_char 1 (CHR ''.'')) after_reset =
       \<lparr>symbol_table = \<lparr>symbols = [], file_text = Some header_save\<rparr>,
        errors =
          [''Error l'' @ [CHR 0xE9] @ ''xico en l'' @ [CHR 0xED] @ ''nea 1: Car'' @
           [CHR 0xE1] @ ''cter no reconocido '' @ [SQUOTE, CHR ''.'', SQUOTE]]\<rparr>"
    by code_simp
  have four: "(3 :: nat) + 1 = 4"
    by simp
  from one two show ?thesis
    by (simp only: state1 state2 four)
qed

section \<open>Strings that the line does not close\<close>

text \<open>
  C1, the claim as stated. The text is an unterminated string on line 1 and the
  identifier \<open>x\<close> on line 2. The error for line 1 is recorded, and the scan goes on with
  line 2: \<open>x\<close> is in the table.
\<close>

theorem unterminated_string_next_line_is_scanned:
  "symbols (symbol_table (analyze (DQUOTE # ''unterminated'' @ [NL] @ ''x'') analyzer0)) =
     [\<lparr>sym_type = ''IDENTIFICADOR'', sym_value = ''x'', sym_line = 2\<rparr>]
   \<and> errors (analyze (DQUOTE # ''unterminated'' @ [NL] @ ''x'') analyzer0) =
       [''Error l'' @ [CHR 0xE9] @ ''xico en l'' @ [CHR 0xED] @ ''nea 1: String no cerrado'']"
  unfolding analyze_start by code_simp

text \<open>
  C1, as the code has it. Let the loop of \<open>tokenize_line\<close> reach, after some iterations,
  a double quote at the cursor \<open>i\<close>, in any column, with the analyzer \<open>st_i\<close>, and let the
  rest of the line hold no closing quote. Then the scan of that line ends there: one error
  is appended, whose text gives the line number and says that the string is not closed,
  and no entry is added for the text after the opening quote on that line. The \<open>break\<close>
  leaves the loop of \<open>tokenize_line\<close> only, so \<open>analyze\<close> goes on with the following lines
  from that state. In a text whose first line is \<open>a "bc d\<close> and whose second line is \<open>x\<close>
  the entries are \<open>a\<close> and \<open>x\<close> and the one error is for line 1; two lines with an unclosed
  string each give two errors.
\<close>

theorem unterminated_string_stops_line:
  assumes "after_iterations k line line_num 0 st = Some (i, st_i)"
    and "i < length line"
    and "line ! i = DQUOTE"
    and "DQUOTE \<notin> set (drop (i + 1) line)"
  shows "step line line_num i st_i = Break (append_error (error_string line_num) st_i)
         \<and> tokenize_line line line_num st = append_error (error_string line_num) st_i
         \<and> symbols (symbol_table (tokenize_line line line_num st)) =
             symbols (symbol_table st_i)
         \<and> file_text (symbol_table (tokenize_line line line_num st)) =
             file_text (symbol_table st_i)
         \<and> errors (tokenize_line line line_num st) =
             errors st_i @
               [''Error l'' @ [CHR 0xE9] @ ''xico en l'' @ [CHR 0xED] @ ''nea '' @
                str_int line_num @ '': String no cerrado'']
         \<and> analyze_lines (line # rest) line_num st =
             analyze_lines rest (line_num + 1) (append_error (error_string line_num) st_i)
         \<and> symbols (symbol_table
              (analyze (''a '' @ DQUOTE # ''bc d'' @ [NL] @ ''x'') st0)) =
             [\<lparr>sym_type = ''IDENTIFICADOR'', sym_value = ''a'', sym_line = 1\<rparr>,
              \<lparr>sym_type = ''IDENTIFICADOR'', sym_value = ''x'', sym_line = 2\<rparr>]
         \<and> errors (analyze (''a '' @ DQUOTE # ''bc d'' @ [NL] @ ''x'') st0) =
             [''Error l'' @ [CHR 0xE9] @ ''xico en l'' @ [CHR 0xED] @
              ''nea 1: String no cerrado'']
         \<and> symbols (symbol_table
              (analyze (DQUOTE # ''a'' @ [NL] @ ''y = '' @ DQUOTE # ''b'') st0)) =
             [\<lparr>sym_type = ''IDENTIFICADOR'', sym_value = ''y'', sym_line = 2\<rparr>,
              \<lparr>sym_type = ''OPERADOR'', sym_value = ''='', sym_line = 2\<rparr>]
         \<and> errors (analyze (DQUOTE # ''a'' @ [NL] @ ''y = '' @ DQUOTE # ''b'') st0) =
             [''Error l'' @ [CHR 0xE9] @ ''xico en l'' @ [CHR 0xED] @
              ''nea 1: String no cerrado'',
              ''Error l'' @ [CHR 0xE9] @ ''xico en l'' @ [CHR 0xED] @
              ''nea 2: String no cerrado'']"
proof -
  have whole: "takeWhile (\<lambda>c. c \<noteq> DQUOTE) (drop (i + 1) line) = drop (i + 1) line"
    using assms(4) by (auto simp: takeWhile_eq_all_conv)
  have "scan_string line (i + 1) =
      i + 1 + length (takeWhile (\<lambda>c. c \<noteq> DQUOTE) (drop (i + 1) line))"
    by (rule scan_string_takeWhile)
  also have "\<dots> = i + 1 + length (drop (i + 1) line)"
    by (simp only: whole)
  also have "\<dots> = length line"
    using assms(2) by simp
  finally have cursor: "scan_string line (i + 1) = length line" .
  have one: "step line line_num i st_i = Break (append_error (error_string line_num) st_i)"
    using assms(3) dquote_class cursor by (simp add: step_def Let_def)
  have loop: "tokenize_from line line_num i st_i = append_error (error_string line_num) st_i"
    using assms(2) by (subst tokenize_from.simps) (simp add: one)
  have "tokenize_from line line_num 0 st = tokenize_from line line_num i st_i"
    using assms(1) by (rule after_iterations_tokenize_from)
  with loop have line_scan: "tokenize_line line line_num st =
      append_error (error_string line_num) st_i"
    by (simp add: tokenize_line_def)
  have entries: "symbols (symbol_table (tokenize_line line line_num st)) =
      symbols (symbol_table st_i)"
    and saved: "file_text (symbol_table (tokenize_line line line_num st)) =
      file_text (symbol_table st_i)"
    by (simp_all add: line_scan append_error_def)
  have messages: "errors (tokenize_line line line_num st) =
             errors st_i @
               [''Error l'' @ [CHR 0xE9] @ ''xico en l'' @ [CHR 0xED] @ ''nea '' @
                str_int line_num @ '': String no cerrado'']"
    by (simp add: line_scan append_error_def error_string_def error_prefix_def)
  have next_line: "analyze_lines (line # rest) line_num st =
             analyze_lines rest (line_num + 1) (append_error (error_string line_num) st_i)"
    by (simp add: line_scan)
  have literal1: "symbols (symbol_table
              (analyze (''a '' @ DQUOTE # ''bc d'' @ [NL] @ ''x'') st0)) =
             [\<lparr>sym_type = ''IDENTIFICADOR'', sym_value = ''a'', sym_line = 1\<rparr>,
              \<lparr>sym_type = ''IDENTIFICADOR'', sym_value = ''x'', sym_line = 2\<rparr>]
         \<and> errors (analyze (''a '' @ DQUOTE # ''bc d'' @ [NL] @ ''x'') st0) =
             [''Error l'' @ [CHR 0xE9] @ ''xico en l'' @ [CHR 0xED] @
              ''nea 1: String no cerrado'']"
    unfolding analyze_start by code_simp
  have literal2: "symbols (symbol_table
              (analyze (DQUOTE # ''a'' @ [NL] @ ''y = '' @ DQUOTE # ''b'') st0)) =
             [\<lparr>sym_type = ''IDENTIFICADOR'', sym_value = ''y'', sym_line = 2\<rparr>,
              \<lparr>sym_type = ''OPERADOR'', sym_value = ''='', sym_line = 2\<rparr>]
         \<and> errors (analyze (DQUOTE # ''a'' @ [NL] @ ''y = '' @ DQUOTE # ''b'') st0) =
             [''Error l'' @ [CHR 0xE9] @ ''xico en l'' @ [CHR 0xED] @
              ''nea 1: String no cerrado'',
              ''Error l'' @ [CHR 0xE9] @ ''xico en l'' @ [CHR 0xED] @
              ''nea 2: String no cerrado'']"
    unfolding analyze_start by code_simp
  from one line_scan entries saved messages next_line literal1 literal2 show ?thesis
    by blast
qed

theorem unterminated_string_stops_line_witness:
  "after_iterations 2 (''a '' @ DQUOTE # ''bc d'') 1 0 after_reset =
     Some (2,
       \<lparr>symbol_table =
          \<lparr>symbols = [\<lparr>sym_type = ''IDENTIFICADOR'', sym_value = ''a'', sym_line = 1\<rparr>],
           file_text = Some (header_save @
             ''IDENTIFICADOR'' @ [TAB] @ ''a'' @ [TAB] @ ''1'' @ [NL])\<rparr>,
        errors = []\<rparr>)
   \<and> tokenize_line (''a '' @ DQUOTE # ''bc d'') 1 after_reset =
       \<lparr>symbol_table =
          \<lparr>symbols = [\<lparr>sym_type = ''IDENTIFICADOR'', sym_value = ''a'', sym_line = 1\<rparr>],
           file_text = Some (header_save @
             ''IDENTIFICADOR'' @ [TAB] @ ''a'' @ [TAB] @ ''1'' @ [NL])\<rparr>,
        errors =
          [''Error l'' @ [CHR 0xE9] @ ''xico en l'' @ [CHR 0xED] @
           ''nea 1: String no cerrado'']\<rparr>
   \<and> analyze_lines [''a '' @ DQUOTE # ''bc d'', ''x''] 1 after_reset =
       analyze_lines [''x''] 2
         \<lparr>symbol_table =
            \<lparr>symbols = [\<lparr>sym_type = ''IDENTIFICADOR'', sym_value = ''a'', sym_line = 1\<rparr>],
             file_text = Some (header_save @
               ''IDENTIFICADOR'' @ [TAB] @ ''a'' @ [TAB] @ ''1'' @ [NL])\<rparr>,
          errors =
            [''Error l'' @ [CHR 0xE9] @ ''xico en l'' @ [CHR 0xED] @
             ''nea 1: String no cerrado'']\<rparr>"
proof -
  have reach: "after_iterations 2 (''a '' @ DQUOTE # ''bc d'') 1 0 after_reset =
     Some (2,
       \<lparr>symbol_table =
          \<lparr>symbols = [\<lparr>sym_type = ''IDENTIFICADOR'', sym_value = ''a'', sym_line = 1\<rparr>],
           file_text = Some (header_save @
             ''IDENTIFICADOR'' @ [TAB] @ ''a'' @ [TAB] @ ''1'' @ [NL])\<rparr>,
        errors = []\<rparr>)"
    by code_simp
  have inside: "2 < length (''a '' @ DQUOTE # ''bc d'')"
    and quote: "(''a '' @ DQUOTE # ''bc d'') ! 2 = DQUOTE"
    and unclosed: "DQUOTE \<notin> set (drop (2 + 1) (''a '' @ DQUOTE # ''bc d''))"
    by simp_all
  note line = unterminated_string_stops_line [OF reach inside quote unclosed, of "[''x'']"]
  from line have scan: "tokenize_line (''a '' @ DQUOTE # ''bc d'') 1 after_reset =
       append_error (error_string 1)
         \<lparr>symbol_table =
          \<lparr>symbols = [\<lparr>sym_type = ''IDENTIFICADOR'', sym_value = ''a'', sym_line = 1\<rparr>],
           file_text = Some (header_save @
             ''IDENTIFICADOR'' @ [TAB] @ ''a'' @ [TAB] @ ''1'' @ [NL])\<rparr>,
        errors = []\<rparr>"
    by blast
  from line have next_line: "analyze_lines [''a '' @ DQUOTE # ''bc d'', ''x''] 1 after_reset =
       analyze_lines [''x''] (1 + 1)
         (append_error (error_string 1)
         \<lparr>symbol_table =
          \<lparr>symbols = [\<lparr>sym_type = ''IDENTIFICADOR'', sym_value = ''a'', sym_line = 1\<rparr>],
           file_text = Some (header_save @
             ''IDENTIFICADOR'' @ [TAB] @ ''a'' @ [TAB] @ ''1'' @ [NL])\<rparr>,
        errors = []\<rparr>)"
    by blast
  have state: "append_error (error_string 1)
         \<lparr>symbol_table =
          \<lparr>symbols = [\<lparr>sym_type = ''IDENTIFICADOR'', sym_value = ''a'', sym_line = 1\<rparr>],
           file_text = Some (header_save @
             ''IDENTIFICADOR'' @ [TAB] @ ''a'' @ [TAB] @ ''1'' @ [NL])\<rparr>,
        errors = []\<rparr> =
       \<lparr>symbol_table =
          \<lparr>symbols = [\<lparr>sym_type = ''IDENTIFICADOR'', sym_value = ''a'', sym_line = 1\<rparr>],
           file_text = Some (header_save @
             ''IDENTIFICADOR'' @ [TAB] @ ''a'' @ [TAB] @ ''1'' @ [NL])\<rparr>,
        errors =
          [''Error l'' @ [CHR 0xE9] @ ''xico en l'' @ [CHR 0xED] @
           ''nea 1: String no cerrado'']\<rparr>"
    by code_simp
  have two: "(1 :: int) + 1 = 2"
    by simp
  from reach scan next_line show ?thesis
    by (simp only: state two)
qed

section \<open>Determinism and the number of entries\<close>

text \<open>
  C4. \<open>analyze\<close> is a function of the text alone: whatever the table and the error list
  held before (so also for two fresh tables), two runs on the same text end with the same
  entries, the same errors and the same file. The number of entries after \<open>analyze\<close> is
  the number of tokens that the scan recognized, whitespace and comments apart.
\<close>

theorem analyze_deterministic:
  "analyze code st1 = analyze code st2
   \<and> symbols (symbol_table (analyze code st1)) = symbols (symbol_table (analyze code st2))
   \<and> errors (analyze code st1) = errors (analyze code st2)
   \<and> analyze code (analyze code st1) = analyze code st1
   \<and> length (symbols (symbol_table (analyze code st1))) = tokens_recognized code"
proof -
  have same: "\<And>a b. analyze code a = analyze code b"
    by (simp add: analyze_start)
  have "length (symbols (symbol_table (analyze code st1))) =
      length (symbols (symbol_table after_reset)) + tokens_recognized code"
    unfolding analyze_start tokens_recognized_def by (rule analyze_lines_count)
  then have count: "length (symbols (symbol_table (analyze code st1))) = tokens_recognized code"
    by (simp add: after_reset_def)
  from same [of st1 st2] same [of "analyze code st1" st1] count show ?thesis
    by simp
qed

theorem analyze_deterministic_witness:
  "analyze ''x = 3.5; // y'' analyzer0 = analyze ''x = 3.5; // y'' after_reset
   \<and> length (symbols (symbol_table (analyze ''x = 3.5; // y'' analyzer0))) = 4
   \<and> tokens_recognized ''x = 3.5; // y'' = 4"
proof -
  note run = analyze_deterministic [of "''x = 3.5; // y''" analyzer0 after_reset]
  from run have same: "analyze ''x = 3.5; // y'' analyzer0 = analyze ''x = 3.5; // y'' after_reset"
    by (rule conjunct1)
  from run have entries: "length (symbols (symbol_table (analyze ''x = 3.5; // y'' analyzer0))) =
      tokens_recognized ''x = 3.5; // y''"
    by blast
  have tokens: "tokens_recognized ''x = 3.5; // y'' = 4"
    by code_simp
  from entries tokens
  have "length (symbols (symbol_table (analyze ''x = 3.5; // y'' analyzer0))) = 4"
    by (rule trans)
  with same tokens show ?thesis
    by blast
qed

section \<open>Termination\<close>

text \<open>
  C10. Every iteration of the loop of \<open>tokenize_line\<close> either leaves the loop or moves the
  cursor strictly forward, and never beyond the end of the line. So the scan of a line from
  the cursor \<open>i\<close> ends within \<open>length line - i\<close> iterations, and \<open>analyze\<close> returns for
  every text: a bound of \<open>length code\<close> iterations for each line is never used up.
\<close>

theorem analyze_terminates:
  "(i < length line \<longrightarrow>
      (case step line line_num i st of
         Continue j st' \<Rightarrow> i < j \<and> j \<le> length line
       | Break st' \<Rightarrow> True))
   \<and> tokenize_bounded (length line - i) line line_num i st =
       Some (tokenize_from line line_num i st)
   \<and> analyze_bounded (length code) code st0 = Some (analyze code st0)"
proof -
  have "i < length line \<longrightarrow>
      (case step line line_num i st of
         Continue j st' \<Rightarrow> i < j \<and> j \<le> length line
       | Break st' \<Rightarrow> True)"
    using step_advances [of i line line_num st] step_bounded [of i line line_num st]
    by (auto split: loop.splits)
  moreover have "tokenize_bounded (length line - i) line line_num i st =
       Some (tokenize_from line line_num i st)"
    by (simp add: tokenize_bounded_enough)
  moreover have "analyze_bounded (length code) code st0 = Some (analyze code st0)"
    by (rule analyze_bounded_enough)
  ultimately show ?thesis by blast
qed

theorem analyze_terminates_witness:
  "(0 :: nat) < length ''ab + 1''
   \<and> (case step ''ab + 1'' 1 0 after_reset of
         Continue j st' \<Rightarrow> 0 < j \<and> j \<le> length ''ab + 1''
       | Break st' \<Rightarrow> True)
   \<and> tokenize_bounded (length ''ab + 1'' - 0) ''ab + 1'' 1 0 after_reset =
       Some (tokenize_from ''ab + 1'' 1 0 after_reset)
   \<and> analyze_bounded (length ''ab + 1'') ''ab + 1'' analyzer0 =
       Some (analyze ''ab + 1'' analyzer0)"
proof -
  have inside: "(0 :: nat) < length ''ab + 1''"
    by simp
  with analyze_terminates [of 0 "''ab + 1''" 1 after_reset "''ab + 1''" analyzer0]
  show ?thesis
    by blast
qed

section \<open>Saving and reloading the table\<close>

text \<open>
  C2. The claim is that a saved table is read back entry for entry by a fresh
  \<open>SymbolTable\<close>. \<open>save\<close> writes three header lines and then one row for each entry, and
  \<open>load\<close> skips the first eight lines of the file, so the first five rows are never read:
  a table with the single entry \<open>x\<close> is reloaded as the empty table, and of the six entries
  that \<open>analyze\<close> records for \<open>a b c d e f\<close> only the last one comes back.
\<close>

theorem save_then_load_loses_entries:
  "SymbolTable_init
     (file_text (save \<lparr>symbols =
        [\<lparr>sym_type = ''IDENTIFICADOR'', sym_value = ''x'', sym_line = 1\<rparr>],
        file_text = None\<rparr>)) =
     Inr \<lparr>symbols = [],
          file_text = Some (header_save @
            ''IDENTIFICADOR'' @ [TAB] @ ''x'' @ [TAB] @ ''1'' @ [NL])\<rparr>
   \<and> map sym_value (symbols (symbol_table (analyze ''a b c d e f'' analyzer0))) =
       [''a'', ''b'', ''c'', ''d'', ''e'', ''f'']
   \<and> SymbolTable_init (file_text (symbol_table (analyze ''a b c d e f'' analyzer0))) =
       Inr \<lparr>symbols = [\<lparr>sym_type = ''IDENTIFICADOR'', sym_value = ''f'', sym_line = 1\<rparr>],
            file_text = file_text (symbol_table (analyze ''a b c d e f'' analyzer0))\<rparr>"
  by code_simp

end
